theory Spec2Isabelle
  imports Complex_Main
begin

section \<open>Floating-point values\<close>

text \<open>
  Tensor entries and Python floats are IEEE numbers.  Finite values are modelled as exact
  reals (rounding, overflow and the sign of zero are not modelled); the two infinities and
  NaN are values of their own, so that a division by zero is visible in the model instead
  of being HOL's \<open>x / 0 = 0\<close>.
\<close>

datatype fval = Fin real | PInf | NInf | NaN

fun is_finite :: "fval \<Rightarrow> bool" where
  "is_finite (Fin x) = True"
| "is_finite _ = False"

fun fneg :: "fval \<Rightarrow> fval" where
  "fneg (Fin x) = Fin (- x)"
| "fneg PInf = NInf"
| "fneg NInf = PInf"
| "fneg NaN = NaN"

fun fadd :: "fval \<Rightarrow> fval \<Rightarrow> fval" where
  "fadd (Fin x) (Fin y) = Fin (x + y)"
| "fadd NaN _ = NaN"
| "fadd _ NaN = NaN"
| "fadd PInf NInf = NaN"
| "fadd NInf PInf = NaN"
| "fadd PInf _ = PInf"
| "fadd NInf _ = NInf"
| "fadd _ PInf = PInf"
| "fadd _ NInf = NInf"

definition fsub :: "fval \<Rightarrow> fval \<Rightarrow> fval" where
  "fsub a b = fadd a (fneg b)"

text \<open>The sign of a product or quotient with an infinite operand.\<close>

definition signed_inf :: "bool \<Rightarrow> fval" where
  "signed_inf positive = (if positive then PInf else NInf)"

fun fmul :: "fval \<Rightarrow> fval \<Rightarrow> fval" where
  "fmul (Fin x) (Fin y) = Fin (x * y)"
| "fmul NaN _ = NaN"
| "fmul _ NaN = NaN"
| "fmul (Fin x) PInf = (if x = 0 then NaN else signed_inf (0 < x))"
| "fmul (Fin x) NInf = (if x = 0 then NaN else signed_inf (x < 0))"
| "fmul PInf (Fin y) = (if y = 0 then NaN else signed_inf (0 < y))"
| "fmul NInf (Fin y) = (if y = 0 then NaN else signed_inf (y < 0))"
| "fmul PInf PInf = PInf"
| "fmul NInf NInf = PInf"
| "fmul PInf NInf = NInf"
| "fmul NInf PInf = NInf"

text \<open>
  Tensor division does not raise: a nonzero finite value divided by zero is an infinity
  (of the sign of the numerator, the zero being taken as positive), and \<open>0 / 0\<close> is NaN.
\<close>

fun fdiv :: "fval \<Rightarrow> fval \<Rightarrow> fval" where
  "fdiv (Fin x) (Fin y) =
     (if y = 0 then (if x = 0 then NaN else signed_inf (0 < x)) else Fin (x / y))"
| "fdiv NaN _ = NaN"
| "fdiv _ NaN = NaN"
| "fdiv (Fin x) PInf = Fin 0"
| "fdiv (Fin x) NInf = Fin 0"
| "fdiv PInf (Fin y) = signed_inf (0 \<le> y)"
| "fdiv NInf (Fin y) = signed_inf (y < 0)"
| "fdiv PInf PInf = NaN"
| "fdiv PInf NInf = NaN"
| "fdiv NInf PInf = NaN"
| "fdiv NInf NInf = NaN"

fun fabs :: "fval \<Rightarrow> fval" where
  "fabs (Fin x) = Fin \<bar>x\<bar>"
| "fabs PInf = PInf"
| "fabs NInf = PInf"
| "fabs NaN = NaN"

fun fsqrt :: "fval \<Rightarrow> fval" where
  "fsqrt (Fin x) = (if x < 0 then NaN else Fin (sqrt x))"
| "fsqrt PInf = PInf"
| "fsqrt NInf = NaN"
| "fsqrt NaN = NaN"

text \<open>The comparison \<open><\<close>: false whenever an operand is NaN.\<close>

fun flt :: "fval \<Rightarrow> fval \<Rightarrow> bool" where
  "flt (Fin x) (Fin y) = (x < y)"
| "flt NaN _ = False"
| "flt _ NaN = False"
| "flt NInf NInf = False"
| "flt NInf _ = True"
| "flt _ NInf = False"
| "flt PInf _ = False"
| "flt _ PInf = True"

text \<open>Elementwise \<open>torch.min\<close> and \<open>torch.max\<close> of two values: a NaN operand is returned.\<close>

definition fv_min :: "fval \<Rightarrow> fval \<Rightarrow> fval" where
  "fv_min a b = (if a = NaN \<or> b = NaN then NaN else if flt b a then b else a)"

definition fv_max :: "fval \<Rightarrow> fval \<Rightarrow> fval" where
  "fv_max a b = (if a = NaN \<or> b = NaN then NaN else if flt a b then b else a)"

section \<open>Python errors\<close>

text \<open>
  Every Python exception the modelled code can raise is a value of this type; a function
  that may raise returns \<open>py_error + 'a\<close>, with \<open>Inl\<close> for the exception.
\<close>

datatype py_error =
    AssertionError
  | IndexError
  | TypeError
  | ZeroDivisionError
  | UnboundLocalError
  | KeyError
  | NameError
  | RuntimeError
  | NotImplementedError

section \<open>Sharded dataset index (ocpmodels/datasets/trajectory\_lmdb.py)\<close>

text \<open>
  One LMDB shard: the integer stored under the reserved key \<open>length\<close> and the records
  stored under the decimal rendering of each local index.  Python integers are \<open>int\<close>.
\<close>

record 'a shard =
  stored_length :: int
  entries :: "int \<rightharpoonup> 'a"

text \<open>
  The fields that \<open>TrajectoryLmdbDataset.__init__\<close> sets and \<open>__getitem__\<close> reads.
  The manifest bookkeeping (\<open>_system_samples\<close>) plays no part in indexing and is left out.
\<close>

record 'a dataset =
  db_paths :: "'a shard list"
  keys :: "int list list"
  keylens :: "int list"
  keylen_cumulative :: "int list"
  transform :: "('a \<Rightarrow> 'a) option"

text \<open>\<open>range(n)\<close> for a Python integer \<open>n\<close> (empty when \<open>n \<le> 0\<close>).\<close>

definition py_range :: "int \<Rightarrow> int list" where
  "py_range n = map int [0..<nat n]"

text \<open>\<open>numpy.cumsum\<close>, with the running sum as accumulator.\<close>

fun cumsum_from :: "int \<Rightarrow> int list \<Rightarrow> int list" where
  "cumsum_from acc [] = []"
| "cumsum_from acc (x # xs) = (acc + x) # cumsum_from (acc + x) xs"

definition cumsum :: "int list \<Rightarrow> int list" where
  "cumsum xs = cumsum_from 0 xs"

definition dataset_init :: "'a shard list \<Rightarrow> ('a \<Rightarrow> 'a) option \<Rightarrow> py_error + 'a dataset" where
  "dataset_init dbs tr =
     (if \<not> (length dbs > 0) then Inl AssertionError
      else
        let ks = map (\<lambda>d. py_range (stored_length d)) dbs;
            lens = map (\<lambda>k. int (length k)) ks
        in Inr \<lparr> db_paths = dbs, keys = ks, keylens = lens,
                 keylen_cumulative = cumsum lens, transform = tr \<rparr>)"

text \<open>\<open>__len__\<close>\<close>

definition dataset_len :: "'a dataset \<Rightarrow> int" where
  "dataset_len ds = sum_list (keylens ds)"

text \<open>
  The scan of \<open>__getitem__\<close>: \<open>db_idx\<close> starts at 0 and is set to the first position
  whose cumulative count exceeds \<open>idx\<close>; when the loop ends without a break it keeps 0.
  The second argument is the loop counter.
\<close>

fun scan_cumulative :: "int list \<Rightarrow> nat \<Rightarrow> int \<Rightarrow> nat" where
  "scan_cumulative [] i idx = 0"
| "scan_cumulative (c # cs) i idx = (if c > idx then i else scan_cumulative cs (Suc i) idx)"

text \<open>Lines 76 to 85 of \<open>__getitem__\<close>: the pair (\<open>db_idx\<close>, \<open>el_idx\<close>).\<close>

definition resolve :: "'a dataset \<Rightarrow> int \<Rightarrow> nat \<times> int" where
  "resolve ds idx =
     (let db_idx = scan_cumulative (keylen_cumulative ds) 0 idx;
          el_idx = (if db_idx \<noteq> 0 then idx - keylen_cumulative ds ! (db_idx - 1) else idx)
      in (db_idx, el_idx))"

text \<open>
  \<open>__getitem__\<close>.  After the assertion \<open>el_idx\<close> is not negative, so the list access
  \<open>self._keys[db_idx][el_idx]\<close> raises IndexError exactly when \<open>el_idx\<close> is not below the
  length of the key list.  A key the shard does not hold makes \<open>get\<close> return None, on
  which \<open>pickle.loads\<close> raises TypeError.
\<close>

definition getitem :: "'a dataset \<Rightarrow> int \<Rightarrow> py_error + 'a" where
  "getitem ds idx =
     (let (db_idx, el_idx) = resolve ds idx in
      if \<not> (el_idx \<ge> 0) then Inl AssertionError
      else if \<not> (db_idx < length (db_paths ds)) then Inl IndexError
      else if \<not> (db_idx < length (keys ds)) then Inl IndexError
      else if \<not> (el_idx < int (length (keys ds ! db_idx))) then Inl IndexError
      else
        (case entries (db_paths ds ! db_idx) (keys ds ! db_idx ! nat el_idx) of
           None \<Rightarrow> Inl TypeError
         | Some data_object \<Rightarrow>
             Inr (case transform ds of None \<Rightarrow> data_object | Some f \<Rightarrow> f data_object)))"

text \<open>The valid (shard, local index) pairs of a dataset.\<close>

definition valid_pairs :: "'a dataset \<Rightarrow> (nat \<times> int) set" where
  "valid_pairs ds = {(s, l). s < length (keylens ds) \<and> 0 \<le> l \<and> l < keylens ds ! s}"

text \<open>A three-shard dataset, one shard empty, used to exercise the index.\<close>

definition example_shards :: "string shard list" where
  "example_shards =
     [\<lparr> stored_length = 2, entries = [0 \<mapsto> ''a0'', 1 \<mapsto> ''a1''] \<rparr>,
      \<lparr> stored_length = 0, entries = Map.empty \<rparr>,
      \<lparr> stored_length = 3, entries = [0 \<mapsto> ''c0'', 1 \<mapsto> ''c1'', 2 \<mapsto> ''c2''] \<rparr>]"


section \<open>Evaluation engine (ocpmodels/modules/evaluator.py)\<close>

subsection \<open>Tensors and the prediction and target dictionaries\<close>

text \<open>
  A tensor is its shape and its entries in row-major order; entries of evaluator inputs
  are finite.  \<open>numel\<close> is the product of the shape and \<open>size(0)\<close> its first component (an
  IndexError on a tensor without dimensions).
\<close>

record tensor =
  shape :: "nat list"
  data :: "real list"

definition tensor1 :: "real list \<Rightarrow> tensor" where
  "tensor1 xs = \<lparr> shape = [length xs], data = xs \<rparr>"

definition tnumel :: "tensor \<Rightarrow> int" where
  "tnumel t = int (prod_list (shape t))"

definition size0 :: "tensor \<Rightarrow> py_error + int" where
  "size0 t = (case shape t of [] \<Rightarrow> Inl IndexError | n # _ \<Rightarrow> Inr (int n))"

text \<open>
  \<open>target - prediction\<close> on tensors of one shape.  Tensors of different shapes are outside
  the model (torch broadcasts them when it can and raises RuntimeError otherwise); inside
  \<open>eval\<close> the shapes of the task attributes have been asserted equal before.
\<close>

definition tsub :: "tensor \<Rightarrow> tensor \<Rightarrow> py_error + tensor" where
  "tsub a b =
     (if shape a = shape b
      then Inr \<lparr> shape = shape a, data = map2 (\<lambda>x y. x - y) (data a) (data b) \<rparr>
      else Inl RuntimeError)"

text \<open>
  \<open>torch.sum(t).item()\<close> and \<open>torch.mean(t).item()\<close> are reductions of the numerical back
  end over the entries of a tensor.  They add in floating point, in an order and a
  precision of the back end's choosing, so the sum of a concatenation need not be the sum
  of the sums of its parts: they are parameters of the model.  \<open>exact_reductions\<close> are
  the reductions without rounding (the mean of no entries is NaN); the examples use them.
\<close>

record reductions =
  torch_sum :: "real list \<Rightarrow> real"
  torch_mean :: "real list \<Rightarrow> fval"

definition exact_reductions :: reductions where
  "exact_reductions =
     \<lparr> torch_sum = sum_list,
       torch_mean = (\<lambda>xs. fdiv (Fin (sum_list xs)) (Fin (real (length xs)))) \<rparr>"

type_synonym pdict = "string \<rightharpoonup> tensor"

text \<open>\<open>d[key]\<close> on a dictionary.\<close>

definition getkey :: "pdict \<Rightarrow> string \<Rightarrow> py_error + tensor" where
  "getkey d k = (case d k of None \<Rightarrow> Inl KeyError | Some t \<Rightarrow> Inr t)"

subsection \<open>Metric functions\<close>

text \<open>The dictionary every metric function returns.\<close>

record stat =
  s_metric :: fval
  s_total :: real
  s_numel :: int

definition absolute_error :: "reductions \<Rightarrow> tensor \<Rightarrow> tensor \<Rightarrow> py_error + stat" where
  "absolute_error red prediction target =
     (case tsub target prediction of
        Inl e \<Rightarrow> Inl e
      | Inr d \<Rightarrow>
          let error = d\<lparr> data := map abs (data d) \<rparr>
          in Inr \<lparr> s_metric = torch_mean red (data error),
                   s_total = torch_sum red (data error),
                   s_numel = tnumel prediction \<rparr>)"

definition squared_error :: "reductions \<Rightarrow> tensor \<Rightarrow> tensor \<Rightarrow> py_error + stat" where
  "squared_error red prediction target =
     (case tsub target prediction of
        Inl e \<Rightarrow> Inl e
      | Inr d \<Rightarrow>
          let error = d\<lparr> data := map (\<lambda>x. x ^ 2) (data d) \<rparr>
          in Inr \<lparr> s_metric = torch_mean red (data error),
                   s_total = torch_sum red (data error),
                   s_numel = tnumel prediction \<rparr>)"

definition energy_mae :: "reductions \<Rightarrow> pdict \<Rightarrow> pdict \<Rightarrow> py_error + stat" where
  "energy_mae red prediction target =
     (case getkey prediction ''energy'' of
        Inl e \<Rightarrow> Inl e
      | Inr p \<Rightarrow> (case getkey target ''energy'' of
                   Inl e \<Rightarrow> Inl e
                 | Inr t \<Rightarrow> absolute_error red p t))"

definition energy_mse :: "reductions \<Rightarrow> pdict \<Rightarrow> pdict \<Rightarrow> py_error + stat" where
  "energy_mse red prediction target =
     (case getkey prediction ''energy'' of
        Inl e \<Rightarrow> Inl e
      | Inr p \<Rightarrow> (case getkey target ''energy'' of
                   Inl e \<Rightarrow> Inl e
                 | Inr t \<Rightarrow> squared_error red p t))"

text \<open>
  \<open>energy_within_threshold\<close>: \<open>success\<close> counts the entries whose absolute error is below
  the fixed threshold 0.02; \<open>success / total\<close> is a Python division and raises on zero.
\<close>

definition energy_within_threshold :: "pdict \<Rightarrow> pdict \<Rightarrow> py_error + stat" where
  "energy_within_threshold prediction target =
     (let e_thresh = 0.02 in
      case getkey target ''energy'' of
        Inl e \<Rightarrow> Inl e
      | Inr t \<Rightarrow>
     (case getkey prediction ''energy'' of
        Inl e \<Rightarrow> Inl e
      | Inr p \<Rightarrow>
     (case tsub t p of
        Inl e \<Rightarrow> Inl e
      | Inr d \<Rightarrow>
          let error_energy = map abs (data d);
              success = int (length (filter (\<lambda>x. x < e_thresh) error_energy))
          in (case size0 t of
                Inl e \<Rightarrow> Inl e
              | Inr n_total \<Rightarrow>
                  if n_total = 0 then Inl ZeroDivisionError
                  else Inr \<lparr> s_metric = Fin (real_of_int success / real_of_int n_total),
                           s_total = real_of_int success, s_numel = n_total \<rparr>))))"

text \<open>
  \<open>eval(fn)\<close> resolves a metric name to the function of that name.  The functions of the
  task \<open>is2re\<close> are the ones above; the functions of the other two tasks (row norms, cosine
  similarity, a linear solve) are not modelled, and the evaluator below takes the
  resolution of names as a parameter.
\<close>

type_synonym metric_fns = "string \<Rightarrow> pdict \<Rightarrow> pdict \<Rightarrow> py_error + stat"

definition is2re_fns :: "reductions \<Rightarrow> metric_fns" where
  "is2re_fns red fn =
     (if fn = ''energy_mae'' then energy_mae red
      else if fn = ''energy_mse'' then energy_mse red
      else if fn = ''energy_within_threshold'' then energy_within_threshold
      else (\<lambda>prediction target. Inl NameError))"

subsection \<open>The evaluator and its accumulators\<close>

datatype task = S2EF | IS2RS | IS2RE

definition task_metrics :: "task \<Rightarrow> string list" where
  "task_metrics t = (case t of
      S2EF \<Rightarrow> [''forcesx_mae'', ''forcesy_mae'', ''forcesz_mae'', ''forces_mae'',
               ''forces_cos'', ''forces_magnitude'', ''energy_mae'',
               ''energy_force_within_threshold'']
    | IS2RS \<Rightarrow> [''average_distance_within_threshold'', ''positions_mae'', ''positions_mse'']
    | IS2RE \<Rightarrow> [''energy_mae'', ''energy_mse'', ''energy_within_threshold''])"

definition task_attributes :: "task \<Rightarrow> string list" where
  "task_attributes t = (case t of
      S2EF \<Rightarrow> [''energy'', ''forces'', ''natoms'']
    | IS2RS \<Rightarrow> [''positions'', ''cell'', ''pbc'', ''natoms'']
    | IS2RE \<Rightarrow> [''energy''])"

definition atomic_number_tasks :: "task \<Rightarrow> string set" where
  "atomic_number_tasks t = (case t of
      S2EF \<Rightarrow> {''forces_mae'', ''forces_cos''}
    | IS2RS \<Rightarrow> {}
    | IS2RE \<Rightarrow> {})"

text \<open>
  The fields \<open>__init__\<close> sets.  \<open>atomic_number_map\<close> is a dictionary in insertion order:
  atomic number and label (the label table \<open>ATOMIC_NUMBER_LABELS\<close> is not part of this
  module, so the map is given with its labels).
\<close>

record evaluator =
  task :: task
  atomic_number_map :: "(int \<times> string) list"
  atomic_number_metrics :: "string set"

definition evaluator_init :: "task \<Rightarrow> (int \<times> string) list option \<Rightarrow> string set option \<Rightarrow> evaluator" where
  "evaluator_init t atomwise_metric_atoms metrics =
     \<lparr> task = t,
       atomic_number_map = (case atomwise_metric_atoms of None \<Rightarrow> [] | Some m \<Rightarrow> m),
       atomic_number_metrics = (case metrics of None \<Rightarrow> atomic_number_tasks t | Some s \<Rightarrow> s) \<rparr>"

text \<open>
  One accumulator \<open>{"metric": ..., "total": ..., "numel": ...}\<close>; \<open>metric\<close> is None until the
  first merge.  (The field names carry a prefix: \<open>total\<close> is a constant of HOL.)
\<close>

record acc =
  a_metric :: "real option"
  a_total :: real
  a_numel :: int

text \<open>
  Dictionaries of accumulators are mutable objects that \<open>update\<close> changes in place, and
  the default value of \<open>prev_metrics\<close> is one such object, created once when \<open>eval\<close> is
  defined.  The store maps the address of each dictionary to its contents; functions that
  mutate take the store and return the new one together with their result, also when they
  raise.
\<close>

type_synonym addr = nat
type_synonym mdict = "string \<rightharpoonup> acc"
type_synonym store = "addr \<Rightarrow> mdict"

text \<open>The address of the dictionary that is the default value of \<open>prev_metrics\<close>.\<close>

definition default_prev_metrics :: addr where
  "default_prev_metrics = 0"

text \<open>What \<open>update\<close> may be given as \<open>stat\<close>.\<close>

datatype stat_arg = StatDict stat | StatNumber real | StatTensor | StatOther

definition store_acc :: "store \<Rightarrow> addr \<Rightarrow> string \<Rightarrow> acc \<Rightarrow> store" where
  "store_acc h metrics key a = h(metrics := (h metrics)(key \<mapsto> a))"

text \<open>
  \<open>Evaluator.update\<close>.  The additions to \<open>total\<close> and \<open>numel\<close> are stored before the
  division, which raises ZeroDivisionError when the new \<open>numel\<close> is zero.  The addition
  and the division of Python floats are written with the operations on reals.
\<close>

definition update :: "string \<Rightarrow> stat_arg \<Rightarrow> addr \<Rightarrow> store \<Rightarrow> (py_error + addr) \<times> store" where
  "update key stat metrics h =
     (let a0 = (case h metrics key of
                  None \<Rightarrow> \<lparr> a_metric = None, a_total = 0, a_numel = 0 \<rparr>
                | Some a \<Rightarrow> a);
          h0 = store_acc h metrics key a0
      in case stat of
           StatDict d \<Rightarrow>
             let a1 = a0\<lparr> a_total := a_total a0 + s_total d, a_numel := a_numel a0 + s_numel d \<rparr>;
                 h1 = store_acc h0 metrics key a1
             in if a_numel a1 = 0 then (Inl ZeroDivisionError, h1)
                else (Inr metrics,
                      store_acc h1 metrics key
                        (a1\<lparr> a_metric := Some (a_total a1 / real_of_int (a_numel a1)) \<rparr>))
         | StatNumber x \<Rightarrow>
             let a1 = a0\<lparr> a_total := a_total a0 + x, a_numel := a_numel a0 + 1 \<rparr>;
                 h1 = store_acc h0 metrics key a1
             in if a_numel a1 = 0 then (Inl ZeroDivisionError, h1)
                else (Inr metrics,
                      store_acc h1 metrics key
                        (a1\<lparr> a_metric := Some (a_total a1 / real_of_int (a_numel a1)) \<rparr>))
         | StatTensor \<Rightarrow> (Inl NotImplementedError, h0)
         | StatOther \<Rightarrow> (Inr metrics, h0))"

text \<open>
  \<open>_eval_metric_fn\<close>.  With \<open>numel\<close> given, the count of the result is overwritten and its
  metric recomputed by a Python division.  An empty prefix counts as no prefix.
\<close>

definition eval_metric_fn ::
  "metric_fns \<Rightarrow> string \<Rightarrow> pdict \<Rightarrow> pdict \<Rightarrow> addr \<Rightarrow> string option \<Rightarrow> int option \<Rightarrow> store
     \<Rightarrow> (py_error + addr) \<times> store" where
  "eval_metric_fn fns fn prediction target metrics fn_prefix numel_arg h =
     (case fns fn prediction target of
        Inl e \<Rightarrow> (Inl e, h)
      | Inr res \<Rightarrow>
          let fn_metric_name =
                (case fn_prefix of None \<Rightarrow> fn | Some p \<Rightarrow> if p \<noteq> [] then p @ fn else fn)
          in (case numel_arg of
                None \<Rightarrow> update fn_metric_name (StatDict res) metrics h
              | Some n \<Rightarrow>
                  if n = 0 then (Inl ZeroDivisionError, h)
                  else update fn_metric_name
                         (StatDict (res\<lparr> s_numel := n,
                                         s_metric := Fin (s_total res / real_of_int n) \<rparr>))
                         metrics h))"

text \<open>The rows of a tensor along its first dimension, \<open>w\<close> entries each.\<close>

definition trows :: "nat \<Rightarrow> nat \<Rightarrow> real list \<Rightarrow> real list list" where
  "trows n w xs = map (\<lambda>i. take w (drop (i * w) xs)) [0..<n]"

text \<open>
  \<open>t[~mask] = 0\<close> on a copy of \<open>t\<close>: the rows whose mask entry is false are zeroed.  The mask
  must be as long as the first dimension.
\<close>

definition mask_fill :: "bool list \<Rightarrow> tensor \<Rightarrow> py_error + tensor" where
  "mask_fill msk t =
     (case shape t of
        [] \<Rightarrow> Inl IndexError
      | n # rest \<Rightarrow>
          if n \<noteq> length msk then Inl IndexError
          else Inr (t\<lparr> data := concat (map2 (\<lambda>keep row. if keep then row else map (\<lambda>_. 0) row)
                                          msk (trows n (prod_list rest) (data t))) \<rparr>))"

text \<open>
  The loop of \<open>_eval_atomwise_metrics\<close> over the keys of \<open>atomic_number_map\<close>: one masked
  evaluation for each tracked atomic number, stored under a prefixed key with the count
  three times the number of atoms of that atomic number.
\<close>

fun atomwise_loop ::
  "metric_fns \<Rightarrow> string \<Rightarrow> string \<Rightarrow> int list \<Rightarrow> pdict \<Rightarrow> pdict \<Rightarrow> (int \<times> string) list
     \<Rightarrow> addr \<Rightarrow> store \<Rightarrow> (py_error + addr) \<times> store" where
  "atomwise_loop fns fn metric_key atomic_numbers prediction target [] metrics h =
     (Inr metrics, h)"
| "atomwise_loop fns fn metric_key atomic_numbers prediction target ((atomic_number, label) # rest)
     metrics h =
     (let msk = map (\<lambda>z. z = atomic_number) atomic_numbers in
      case getkey prediction metric_key of
        Inl e \<Rightarrow> (Inl e, h)
      | Inr p \<Rightarrow>
     (case mask_fill msk p of
        Inl e \<Rightarrow> (Inl e, h)
      | Inr p' \<Rightarrow>
     (case getkey target metric_key of
        Inl e \<Rightarrow> (Inl e, h)
      | Inr t \<Rightarrow>
     (case mask_fill msk t of
        Inl e \<Rightarrow> (Inl e, h)
      | Inr t' \<Rightarrow>
     (case eval_metric_fn fns fn (prediction(metric_key \<mapsto> p')) (target(metric_key \<mapsto> t'))
             metrics (Some (''atomwise_'' @ label @ ''_''))
             (Some (int (length (filter id msk)) * 3)) h of
        (Inl e, h') \<Rightarrow> (Inl e, h')
      | (Inr metrics', h') \<Rightarrow>
          atomwise_loop fns fn metric_key atomic_numbers prediction target rest metrics' h')))))"

text \<open>\<open>_eval_atomwise_metrics\<close>; \<open>fn.split("_")[0]\<close> is the name up to its first underscore.\<close>

definition eval_atomwise_metrics ::
  "evaluator \<Rightarrow> metric_fns \<Rightarrow> string \<Rightarrow> int list option \<Rightarrow> pdict \<Rightarrow> pdict \<Rightarrow> addr \<Rightarrow> store
     \<Rightarrow> (py_error + addr) \<times> store" where
  "eval_atomwise_metrics ev fns fn atomic_numbers prediction target metrics h =
     (case atomic_numbers of
        None \<Rightarrow> (Inl AssertionError, h)
      | Some zs \<Rightarrow>
          let k0 = takeWhile (\<lambda>c. c \<noteq> CHR ''_'') fn;
              metric_key = (if take 6 k0 = ''forces'' then ''forces'' else k0)
          in if \<not> (metric_key = ''forces'' \<or> metric_key = ''energy'') then (Inl AssertionError, h)
             else if \<not> (metric_key \<in> dom prediction \<and> metric_key \<in> dom target)
                  then (Inl AssertionError, h)
             else atomwise_loop fns fn metric_key zs prediction target (atomic_number_map ev)
                    metrics h)"

text \<open>The attribute checks at the head of \<open>eval\<close>.\<close>

fun check_attributes :: "string list \<Rightarrow> pdict \<Rightarrow> pdict \<Rightarrow> bool" where
  "check_attributes [] prediction target = True"
| "check_attributes (attr # rest) prediction target =
     (case (prediction attr, target attr) of
        (Some p, Some t) \<Rightarrow> shape p = shape t \<and> check_attributes rest prediction target
      | _ \<Rightarrow> False)"

text \<open>The loop of \<open>eval\<close> over the metric names of the task.\<close>

fun eval_loop ::
  "evaluator \<Rightarrow> metric_fns \<Rightarrow> string list \<Rightarrow> pdict \<Rightarrow> pdict \<Rightarrow> int list option \<Rightarrow> addr \<Rightarrow> store
     \<Rightarrow> (py_error + addr) \<times> store" where
  "eval_loop ev fns [] prediction target atomic_numbers metrics h = (Inr metrics, h)"
| "eval_loop ev fns (fn # rest) prediction target atomic_numbers metrics h =
     (case eval_metric_fn fns fn prediction target metrics None None h of
        (Inl e, h') \<Rightarrow> (Inl e, h')
      | (Inr metrics', h') \<Rightarrow>
          if atomic_numbers \<noteq> None \<and> fn \<in> atomic_number_metrics ev
          then (case eval_atomwise_metrics ev fns fn atomic_numbers prediction target metrics' h' of
                  (Inl e, h'') \<Rightarrow> (Inl e, h'')
                | (Inr metrics'', h'') \<Rightarrow>
                    eval_loop ev fns rest prediction target atomic_numbers metrics'' h'')
          else eval_loop ev fns rest prediction target atomic_numbers metrics' h')"

text \<open>
  \<open>Evaluator.eval\<close>.  \<open>prev_metrics\<close> is None when the caller omits the argument; the
  parameter is then bound to the one default dictionary.
\<close>

definition eval ::
  "evaluator \<Rightarrow> metric_fns \<Rightarrow> pdict \<Rightarrow> pdict \<Rightarrow> addr option \<Rightarrow> int list option \<Rightarrow> store
     \<Rightarrow> (py_error + addr) \<times> store" where
  "eval ev fns prediction target prev_metrics atomic_numbers h =
     (if \<not> check_attributes (task_attributes (task ev)) prediction target
      then (Inl AssertionError, h)
      else
        let metrics = (case prev_metrics of None \<Rightarrow> default_prev_metrics | Some m \<Rightarrow> m)
        in eval_loop ev fns (task_metrics (task ev)) prediction target atomic_numbers metrics h)"

text \<open>
  A sequence of \<open>eval\<close> calls that all omit \<open>prev_metrics\<close>, each with its own prediction,
  target and atomic numbers; the sequence stops at the first call that raises.
\<close>

fun eval_calls ::
  "evaluator \<Rightarrow> metric_fns \<Rightarrow> (pdict \<times> pdict \<times> int list option) list \<Rightarrow> store
     \<Rightarrow> (py_error + addr list) \<times> store" where
  "eval_calls ev fns [] h = (Inr [], h)"
| "eval_calls ev fns ((prediction, target, atomic_numbers) # rest) h =
     (case eval ev fns prediction target None atomic_numbers h of
        (Inl e, h') \<Rightarrow> (Inl e, h')
      | (Inr m, h') \<Rightarrow>
          (case eval_calls ev fns rest h' of
             (Inl e, h'') \<Rightarrow> (Inl e, h'')
           | (Inr ms, h'') \<Rightarrow> (Inr (m # ms), h'')))"

subsection \<open>Observations used in the statements\<close>

text \<open>Reading an accumulator: the running total and count under a key, zero when the key is absent.\<close>

definition acc_total :: "store \<Rightarrow> addr \<Rightarrow> string \<Rightarrow> real" where
  "acc_total h m k = (case h m k of None \<Rightarrow> 0 | Some a \<Rightarrow> a_total a)"

definition acc_numel :: "store \<Rightarrow> addr \<Rightarrow> string \<Rightarrow> int" where
  "acc_numel h m k = (case h m k of None \<Rightarrow> 0 | Some a \<Rightarrow> a_numel a)"

text \<open>The total and count a metric function yields on one batch (zero when it raises).\<close>

definition stat_total :: "metric_fns \<Rightarrow> string \<Rightarrow> pdict \<Rightarrow> pdict \<Rightarrow> real" where
  "stat_total fns fn prediction target =
     (case fns fn prediction target of Inl e \<Rightarrow> 0 | Inr s \<Rightarrow> s_total s)"

definition stat_numel :: "metric_fns \<Rightarrow> string \<Rightarrow> pdict \<Rightarrow> pdict \<Rightarrow> int" where
  "stat_numel fns fn prediction target =
     (case fns fn prediction target of Inl e \<Rightarrow> 0 | Inr s \<Rightarrow> s_numel s)"

text \<open>The dictionary \<open>eval\<close> works on: the argument, or the default one when it is omitted.\<close>

definition prev_addr :: "addr option \<Rightarrow> addr" where
  "prev_addr prev_metrics = (case prev_metrics of None \<Rightarrow> default_prev_metrics | Some m \<Rightarrow> m)"

text \<open>Two \<open>eval\<close> calls of the task \<open>is2re\<close> and the store after them.\<close>

definition example_calls :: "(pdict \<times> pdict \<times> int list option) list" where
  "example_calls =
     [([''energy'' \<mapsto> tensor1 [101 / 100, 203 / 100]], [''energy'' \<mapsto> tensor1 [1, 2]], None),
      ([''energy'' \<mapsto> tensor1 [7 / 2]], [''energy'' \<mapsto> tensor1 [3]], None)]"

definition example_store :: store where
  "example_store = (\<lambda>a. Map.empty)(0 :=
        [''energy_mae'' \<mapsto> \<lparr> a_metric = Some 0.18, a_total = 0.54, a_numel = 3 \<rparr>,
         ''energy_mse'' \<mapsto> \<lparr> a_metric = Some (0.251 / 3), a_total = 0.251, a_numel = 3 \<rparr>,
         ''energy_within_threshold'' \<mapsto> \<lparr> a_metric = Some (1 / 3), a_total = 1, a_numel = 3 \<rparr>])"

section \<open>Batched relaxation optimizer (fairchem/core/common/relaxation/optimizers/lbfgs\_torch.py)\<close>

subsection \<open>Tensors of the optimizer\<close>

text \<open>
  A per-atom tensor of shape \<open>[N, 3]\<close> is the list of its rows, a per-system or per-atom
  vector a list of values.  All tensors of one batch have the same first dimension; the
  elementwise operations below pair entries position by position.
\<close>

type_synonym vec = "fval list"
type_synonym ftensor = "fval list list"

definition fsum :: "fval list \<Rightarrow> fval" where
  "fsum xs = foldl fadd (Fin 0) xs"

definition t_add :: "ftensor \<Rightarrow> ftensor \<Rightarrow> ftensor" where
  "t_add a b = map2 (map2 fadd) a b"

definition t_sub :: "ftensor \<Rightarrow> ftensor \<Rightarrow> ftensor" where
  "t_sub a b = map2 (map2 fsub) a b"

definition t_neg :: "ftensor \<Rightarrow> ftensor" where
  "t_neg a = map (map fneg) a"

text \<open>A tensor times a Python float.\<close>

definition t_scale :: "real \<Rightarrow> ftensor \<Rightarrow> ftensor" where
  "t_scale c a = map (map (fmul (Fin c))) a"

text \<open>\<open>c.unsqueeze(1) * a\<close> and \<open>c[..., None] * a\<close>: every row times its own factor.\<close>

definition t_rowmul :: "fval list \<Rightarrow> ftensor \<Rightarrow> ftensor" where
  "t_rowmul c a = map2 (\<lambda>k row. map (fmul k) row) c a"

text \<open>\<open>torch.norm(a, dim=1)\<close> on one row.\<close>

definition fnorm :: "vec \<Rightarrow> fval" where
  "fnorm v = fsqrt (fsum (map (\<lambda>x. fmul x x) v))"

text \<open>
  \<open>scatter(src, index, reduce=...)\<close> of torch\_scatter: the output has one entry for every
  index up to the largest one, computed from the entries of \<open>src\<close> whose index it is (zero
  for an index that does not occur).  \<open>t[index]\<close> reads an entry for every index.
\<close>

definition dim_size :: "nat list \<Rightarrow> nat" where
  "dim_size idx = (if idx = [] then 0 else Suc (fold max idx 0))"

definition segment :: "'a list \<Rightarrow> nat list \<Rightarrow> nat \<Rightarrow> 'a list" where
  "segment src idx k = map fst (filter (\<lambda>xi. snd xi = k) (zip src idx))"

definition scatter_sum :: "fval list \<Rightarrow> nat list \<Rightarrow> fval list" where
  "scatter_sum src idx = map (\<lambda>k. fsum (segment src idx k)) [0..<dim_size idx]"

definition scatter_max :: "fval list \<Rightarrow> nat list \<Rightarrow> fval list" where
  "scatter_max src idx =
     map (\<lambda>k. case segment src idx k of [] \<Rightarrow> Fin 0 | x # xs \<Rightarrow> foldl fv_max x xs)
       [0..<dim_size idx]"

definition gather :: "'a list \<Rightarrow> nat list \<Rightarrow> 'a list" where
  "gather t idx = map (\<lambda>b. t ! b) idx"

subsection \<open>The optimizable batch\<close>

text \<open>
  The model behind the batch: from the number of evaluations made so far and the current
  positions to the energies per system and the forces per atom, constraints applied.  The
  evaluation number lets a model answer differently on each call (prediction noise).
\<close>

type_synonym calculator = "nat \<Rightarrow> ftensor \<Rightarrow> fval list \<times> ftensor"

text \<open>
  Modelled from the spec: the class \<open>OptimizableBatch\<close> (module \<open>optimizable\<close>) is not among
  the sources.  Its state is the batch (positions, owning-system index per atom, atom count
  per system, attached energy and forces, whether a connectivity graph is present) and two
  counters, of model evaluations and of graph rebuilds.
\<close>

record optimizable =
  pos :: ftensor
  batch_indices :: "nat list"
  natoms :: "nat list"
  batch_energy :: "fval list option"
  batch_forces :: "ftensor option"
  has_edge_index :: bool
  evaluations :: nat
  graph_updates :: nat

text \<open>Modelled from the spec: \<open>positions()\<close> and \<open>setPositions(p)\<close> read and replace the positions.\<close>

definition get_positions :: "optimizable \<Rightarrow> ftensor" where
  "get_positions ob = pos ob"

definition opt_set_positions :: "ftensor \<Rightarrow> optimizable \<Rightarrow> optimizable" where
  "opt_set_positions p ob = ob\<lparr> pos := p \<rparr>"

text \<open>Modelled from the spec: \<open>updateGraph()\<close> rebuilds the connectivity graph.\<close>

definition update_graph :: "optimizable \<Rightarrow> optimizable" where
  "update_graph ob = ob\<lparr> has_edge_index := True, graph_updates := Suc (graph_updates ob) \<rparr>"

text \<open>
  Modelled from the spec: \<open>potentialEnergies()\<close>, \<open>forces(applyConstraint)\<close> and \<open>maxForces()\<close>
  of one iteration are one evaluation of the model at the current positions; the maximum
  force of a system is the largest norm of the forces on its atoms.
\<close>

definition evaluate :: "calculator \<Rightarrow> optimizable \<Rightarrow> (fval list \<times> ftensor) \<times> optimizable" where
  "evaluate calc ob = (calc (evaluations ob) (pos ob), ob\<lparr> evaluations := Suc (evaluations ob) \<rparr>)"

definition get_max_forces :: "ftensor \<Rightarrow> nat list \<Rightarrow> fval list" where
  "get_max_forces forces idx = scatter_max (map fnorm forces) idx"

subsection \<open>The optimizer\<close>

text \<open>
  The configuration \<open>__init__\<close> stores (Python floats as reals, \<open>memory\<close> a natural number
  since a deque rejects a negative capacity).
\<close>

record lbfgs =
  maxstep :: real
  memory :: nat
  damping :: real
  alpha :: real
  H0 :: real
  save_full :: bool
  traj_dir :: "string option"
  traj_names :: "string list option"
  mask_converged :: bool
  otf_graph :: bool

text \<open>
  \<open>__init__\<close>: \<open>1.0 / alpha\<close> is a Python division; names are required when a directory is
  given (\<open>len(None)\<close> is a TypeError); the graph is built when the model does not build it
  on the fly and the batch has none.
\<close>

definition lbfgs_init ::
  "real \<Rightarrow> nat \<Rightarrow> real \<Rightarrow> real \<Rightarrow> bool \<Rightarrow> string option \<Rightarrow> string list option \<Rightarrow> bool \<Rightarrow> bool
     \<Rightarrow> optimizable \<Rightarrow> py_error + (lbfgs \<times> optimizable)" where
  "lbfgs_init maxstep_arg memory_arg damping_arg alpha_arg save_full_traj traj_dir_arg
      traj_names_arg mask_converged_arg otf ob =
     (if alpha_arg = 0 then Inl ZeroDivisionError
      else if traj_dir_arg \<noteq> None \<and> traj_names_arg = None then Inl TypeError
      else if traj_dir_arg \<noteq> None \<and> traj_names_arg = Some [] then Inl AssertionError
      else Inr (\<lparr> maxstep = maxstep_arg, memory = memory_arg, damping = damping_arg,
                  alpha = alpha_arg, H0 = 1 / alpha_arg, save_full = save_full_traj,
                  traj_dir = traj_dir_arg, traj_names = traj_names_arg,
                  mask_converged = mask_converged_arg, otf_graph = otf \<rparr>,
                if \<not> otf \<and> \<not> has_edge_index ob then update_graph ob else ob))"

text \<open>What happens to the trajectory files, in order.\<close>

datatype traj_event = Mkdir string | Open string | Write string | Close string | Rename string

text \<open>
  The attributes \<open>run\<close> and \<open>step\<close> keep on the optimizer, the batch, and the log of
  trajectory file events.
\<close>

record run_state =
  opt :: optimizable
  s_hist :: "ftensor list"
  y_hist :: "ftensor list"
  rho_hist :: "fval list list"
  r0 :: "ftensor option"
  f0 :: "ftensor option"
  events :: "traj_event list"

text \<open>\<open>deque(maxlen=n).append(x)\<close>: the oldest entries are dropped beyond the capacity.\<close>

definition deque_append :: "nat \<Rightarrow> 'a list \<Rightarrow> 'a \<Rightarrow> 'a list" where
  "deque_append n xs x = drop (Suc (length xs) - n) (xs @ [x])"

text \<open>\<open>set_positions\<close>\<close>

definition set_positions :: "lbfgs \<Rightarrow> ftensor \<Rightarrow> bool list \<Rightarrow> optimizable \<Rightarrow> optimizable" where
  "set_positions lb positions update_mask ob =
     (let positions' =
            (if mask_converged lb
             then map2 (\<lambda>m row. if m then row else map (\<lambda>x. Fin 0) row) update_mask positions
             else positions);
          ob' = opt_set_positions positions' ob
      in if \<not> otf_graph lb then update_graph ob' else ob')"

text \<open>\<open>check_convergence\<close>: the mask per atom, the energies and the forces.\<close>

definition check_convergence ::
  "calculator \<Rightarrow> real \<Rightarrow> optimizable \<Rightarrow> (bool list \<times> fval list \<times> ftensor) \<times> optimizable" where
  "check_convergence calc fmax ob =
     (let ((energy, forces), ob') = evaluate calc ob;
          max_forces = gather (get_max_forces forces (batch_indices ob')) (batch_indices ob')
      in ((map (\<lambda>m. flt m (Fin fmax)) max_forces, energy, forces), ob'))"

text \<open>\<open>_batched_dot\<close>\<close>

definition batched_dot :: "nat list \<Rightarrow> ftensor \<Rightarrow> ftensor \<Rightarrow> fval list" where
  "batched_dot idx x y = scatter_sum (map2 (\<lambda>a b. fsum (map2 fmul a b)) x y) idx"

text \<open>\<open>_determine_step\<close>\<close>

definition determine_step :: "lbfgs \<Rightarrow> nat list \<Rightarrow> ftensor \<Rightarrow> ftensor" where
  "determine_step lb idx dr =
     (let steplengths = map fnorm dr;
          longest_steps = gather (scatter_max steplengths idx) idx;
          scale = map (\<lambda>l. fmul (fdiv (Fin 1) (fadd l (Fin (1 / 10 ^ 7))))
                              (fv_min l (Fin (maxstep lb)))) longest_steps
      in t_scale (damping lb) (t_rowmul scale dr))"

text \<open>
  The first loop of the two-loop recursion, from \<open>i = n - 1\<close> down to 0: the list of the
  \<open>alpha[i]\<close> in the order of \<open>i\<close>, and the final \<open>q\<close>.
\<close>

fun first_loop ::
  "nat list \<Rightarrow> ftensor list \<Rightarrow> ftensor list \<Rightarrow> fval list list \<Rightarrow> nat \<Rightarrow> ftensor
     \<Rightarrow> fval list list \<times> ftensor" where
  "first_loop idx s y rho 0 q = ([], q)"
| "first_loop idx s y rho (Suc i) q =
     (let alpha_i = map2 fmul (rho ! i) (batched_dot idx (s ! i) q);
          q' = t_sub q (t_rowmul (gather alpha_i idx) (y ! i));
          (alphas, q'') = first_loop idx s y rho i q'
      in (alphas @ [alpha_i], q''))"

text \<open>The second loop, for \<open>i\<close> from \<open>loopmax - n\<close> up to \<open>loopmax - 1\<close>.\<close>

fun second_loop ::
  "nat list \<Rightarrow> ftensor list \<Rightarrow> ftensor list \<Rightarrow> fval list list \<Rightarrow> fval list list \<Rightarrow> nat \<Rightarrow> nat
     \<Rightarrow> ftensor \<Rightarrow> ftensor" where
  "second_loop idx s y rho alphas loopmax 0 z = z"
| "second_loop idx s y rho alphas loopmax (Suc n) z =
     (let i = loopmax - Suc n;
          beta = map2 fmul (rho ! i) (batched_dot idx (y ! i) z);
          z' = t_add z (t_rowmul (map2 fsub (gather (alphas ! i) idx) (gather beta idx)) (s ! i))
      in second_loop idx s y rho alphas loopmax n z')"

text \<open>\<open>torch.abs(dr).max()\<close>: NaN when an entry is NaN, an error on a tensor without entries.\<close>

definition abs_max :: "ftensor \<Rightarrow> py_error + fval" where
  "abs_max dr =
     (case map fabs (concat dr) of [] \<Rightarrow> Inl RuntimeError | x # xs \<Rightarrow> Inr (foldl fv_max x xs))"

text \<open>
  \<open>step\<close>, with the forces that \<open>run\<close> always passes (the branch that fetches them when
  they are None is not needed).  The history is updated from the second iteration on; \<open>r - self.r0\<close> is a
  TypeError while \<open>self.r0\<close> is None.  A step whose largest entry is below \<open>1e-7\<close> returns
  before the positions and the snapshots \<open>r0\<close>, \<open>f0\<close> are set.
\<close>

definition step :: "lbfgs \<Rightarrow> int \<Rightarrow> ftensor \<Rightarrow> bool list \<Rightarrow> run_state \<Rightarrow> py_error option \<times> run_state" where
  "step lb iteration forces update_mask st =
     (let idx = batch_indices (opt st);
          r = get_positions (opt st);
          hist =
            (if iteration > 0 then
               (case (r0 st, f0 st) of
                  (Some r0v, Some f0v) \<Rightarrow>
                    let s0 = t_sub r r0v;
                        y0 = t_neg (t_sub forces f0v)
                    in Inr (st\<lparr> s_hist := deque_append (memory lb) (s_hist st) s0,
                                 y_hist := deque_append (memory lb) (y_hist st) y0,
                                 rho_hist := deque_append (memory lb) (rho_hist st)
                                    (map (fdiv (Fin 1)) (batched_dot idx y0 s0)) \<rparr>)
                | _ \<Rightarrow> Inl TypeError)
             else Inr st)
      in case hist of
           Inl e \<Rightarrow> (Some e, st)
         | Inr st1 \<Rightarrow>
             let loopmax = min (memory lb) (nat iteration) in
             if \<not> (loopmax \<le> length (rho_hist st1) \<and> loopmax \<le> length (s_hist st1)
                    \<and> loopmax \<le> length (y_hist st1)) then (Some IndexError, st1)
             else
               let q = t_neg forces;
                   (alphas, q') = first_loop idx (s_hist st1) (y_hist st1) (rho_hist st1) loopmax q;
                   z = t_scale (H0 lb) q';
                   z' = second_loop idx (s_hist st1) (y_hist st1) (rho_hist st1) alphas
                          loopmax loopmax z;
                   p = t_neg z';
                   dr = determine_step lb idx p
               in (case abs_max dr of
                     Inl e \<Rightarrow> (Some e, st1)
                   | Inr m \<Rightarrow>
                       if flt m (Fin (1 / 10 ^ 7)) then (None, st1)
                       else (None,
                             st1\<lparr> opt := set_positions lb (t_add r dr) update_mask (opt st1),
                                  r0 := Some r, f0 := Some forces \<rparr>)))"

text \<open>\<open>torch.split(t, sizes)\<close>: consecutive pieces of the given sizes, which must add up.\<close>

fun split_sizes :: "'a list \<Rightarrow> nat list \<Rightarrow> 'a list list" where
  "split_sizes xs [] = []"
| "split_sizes xs (n # ns) = take n xs # split_sizes (drop n xs) ns"

text \<open>
  The loop of \<open>write\<close> over atoms, writers and masks zipped: a system is written when its
  first atom is still being updated or when only selected frames are saved.
\<close>

fun write_loop :: "bool \<Rightarrow> (string \<times> bool list) list \<Rightarrow> traj_event list \<Rightarrow> py_error option \<times> traj_event list" where
  "write_loop full [] ev = (None, ev)"
| "write_loop full ((name, m) # rest) ev =
     (case m of
        [] \<Rightarrow> (Some IndexError, ev)
      | m0 # _ \<Rightarrow> write_loop full rest (if m0 \<or> \<not> full then ev @ [Write name] else ev))"

text \<open>
  \<open>write\<close> (named \<open>write_traj\<close> here, \<open>write\<close> being a keyword); the atoms objects are
  one per system.
\<close>

definition write_traj :: "lbfgs \<Rightarrow> fval list \<Rightarrow> ftensor \<Rightarrow> bool list \<Rightarrow> string list \<Rightarrow> run_state \<Rightarrow> py_error option \<times> run_state" where
  "write_traj lb energy forces update_mask trajectories st =
     (let ob = (opt st)\<lparr> batch_energy := Some energy, batch_forces := Some forces \<rparr>;
          st1 = st\<lparr> opt := ob \<rparr>
      in if sum_list (natoms ob) \<noteq> length update_mask then (Some RuntimeError, st1)
         else
           let update_masks = split_sizes update_mask (natoms ob);
               (err, ev) = write_loop (save_full lb)
                      (zip (take (length (natoms ob)) trajectories) update_masks) (events st1)
           in (err, st1\<lparr> events := ev \<rparr>))"

text \<open>
  The body of the loop of \<open>run\<close>, one iteration: the exception raised in it, if any, the
  new values of \<open>converged\<close> and \<open>converged_mask\<close>, the local variables \<open>energy\<close> and
  \<open>forces\<close>, and the state.
\<close>

definition run_iteration ::
  "lbfgs \<Rightarrow> calculator \<Rightarrow> real \<Rightarrow> int \<Rightarrow> string list option \<Rightarrow> int \<Rightarrow> bool list \<Rightarrow> run_state
     \<Rightarrow> py_error option \<times> bool \<times> bool list \<times> (fval list \<times> ftensor) \<times> run_state" where
  "run_iteration lb calc fmax steps trajectories iteration converged_mask st =
     (let ((cm, energy, forces), ob) = check_convergence calc fmax (opt st);
          st1 = st\<lparr> opt := ob \<rparr>;
          converged_mask' = map2 (\<or>) converged_mask cm;
          converged' = list_all id converged_mask';
          update_mask = map Not converged_mask';
          n = length (pos ob);
          (write_error, st2) =
            (case trajectories of
               Some trajs \<Rightarrow>
                 if save_full lb \<or> converged' \<or> iteration = steps - 1 \<or> iteration = 0
                 then write_traj lb energy (take n forces) (take n update_mask) trajs st1
                 else (None, st1)
             | None \<Rightarrow> (None, st1))
      in case write_error of
           Some e \<Rightarrow> (Some e, converged', converged_mask', (energy, forces), st2)
         | None \<Rightarrow>
             let (step_error, st3) =
                   (if \<not> converged' \<and> iteration < steps - 1
                    then step lb iteration forces update_mask st2 else (None, st2))
             in (step_error, converged', converged_mask', (energy, forces), st3))"

text \<open>
  The loop of \<open>run\<close>.  It returns the exception raised inside the loop, if any, the local
  variables \<open>energy\<close> and \<open>forces\<close> (unbound until the first iteration) and the state.
\<close>

function run_loop ::
  "lbfgs \<Rightarrow> calculator \<Rightarrow> real \<Rightarrow> int \<Rightarrow> string list option \<Rightarrow> int \<Rightarrow> bool \<Rightarrow> bool list
     \<Rightarrow> (fval list \<times> ftensor) option \<Rightarrow> run_state
     \<Rightarrow> py_error option \<times> (fval list \<times> ftensor) option \<times> run_state" where
  "run_loop lb calc fmax steps trajectories iteration converged converged_mask ef st =
     (if iteration < steps \<and> \<not> converged then
        (case run_iteration lb calc fmax steps trajectories iteration converged_mask st of
           (Some e, converged', converged_mask', ef', st') \<Rightarrow> (Some e, Some ef', st')
         | (None, converged', converged_mask', ef', st') \<Rightarrow>
             run_loop lb calc fmax steps trajectories (iteration + 1) converged' converged_mask'
               (Some ef') st')
      else (None, ef, st))"
  by pat_completeness auto
termination
  by (relation "measure (\<lambda>(lb, calc, fmax, steps, trajectories, iteration, rest). nat (steps - iteration))")
    auto

declare run_loop.simps [simp del]

text \<open>How a call of \<open>run\<close> ends: it returns the batch of the final state, or it raises.\<close>

datatype outcome = Returned | Raised py_error

text \<open>
  \<open>run\<close>.  The writers are opened before the loop; after the loop they are closed and the
  temporary files renamed; then the energy and forces of the last iteration are attached
  to the batch, which fails with UnboundLocalError when the loop body never ran.
\<close>

definition run :: "lbfgs \<Rightarrow> calculator \<Rightarrow> real \<Rightarrow> int \<Rightarrow> run_state \<Rightarrow> outcome \<times> run_state" where
  "run lb calc fmax steps st =
     (let st0 = st\<lparr> s_hist := [], y_hist := [], rho_hist := [], r0 := None, f0 := None \<rparr>;
          opened =
            (case traj_dir lb of
               None \<Rightarrow> Inr (None, st0)
             | Some d \<Rightarrow>
                 (case traj_names lb of
                    None \<Rightarrow> Inl (st0\<lparr> events := events st0 @ [Mkdir d] \<rparr>)
                  | Some names \<Rightarrow>
                      Inr (Some names, st0\<lparr> events := events st0 @ Mkdir d # map Open names \<rparr>)))
      in case opened of
           Inl st1 \<Rightarrow> (Raised TypeError, st1)
         | Inr (trajectories, st1) \<Rightarrow>
             (case run_loop lb calc fmax steps trajectories 0 False
                     (replicate (length (batch_indices (opt st1))) False) None st1 of
                (Some e, ef, st2) \<Rightarrow> (Raised e, st2)
              | (None, ef, st2) \<Rightarrow>
                  let st3 = (case trajectories of
                               None \<Rightarrow> st2
                             | Some names \<Rightarrow>
                                 st2\<lparr> events := events st2 @ map Close names @ map Rename names \<rparr>)
                  in (case ef of
                        None \<Rightarrow> (Raised UnboundLocalError, st3)
                      | Some (energy, forces) \<Rightarrow>
                          (Returned,
                           st3\<lparr> opt := (opt st3)\<lparr> batch_energy := Some energy,
                                    batch_forces := Some (take (length (pos (opt st3))) forces) \<rparr> \<rparr>))))"

subsection \<open>Observations and example inputs used in the statements\<close>

text \<open>The Euclidean norm of a row of finite entries.\<close>

definition vnorm :: "real list \<Rightarrow> real" where
  "vnorm v = sqrt (sum_list (map (\<lambda>x. x * x) v))"

text \<open>A list of trajectory events that are all frame writes.\<close>

definition only_writes :: "traj_event list \<Rightarrow> bool" where
  "only_writes ws = list_all (\<lambda>e. case e of Write n \<Rightarrow> True | _ \<Rightarrow> False) ws"

text \<open>
  The optimizer with the default arguments of \<open>__init__\<close>, without and with trajectory
  files, and a state as \<open>run\<close> finds it on a new optimizer.
\<close>

definition default_lbfgs :: lbfgs where
  "default_lbfgs = \<lparr> maxstep = 1 / 100, memory = 100, damping = 1 / 4, alpha = 100, H0 = 1 / 100,
      save_full = True, traj_dir = None, traj_names = None, mask_converged = True,
      otf_graph = True \<rparr>"

definition traj_lbfgs :: lbfgs where
  "traj_lbfgs = default_lbfgs\<lparr> traj_dir := Some ''relax'', traj_names := Some [''a'', ''b''] \<rparr>"

definition fresh_state :: "optimizable \<Rightarrow> run_state" where
  "fresh_state ob = \<lparr> opt = ob, s_hist = [], y_hist = [], rho_hist = [], r0 = None, f0 = None,
      events = [] \<rparr>"

text \<open>
  A batch of two systems of one atom each, and two models: both leave the first atom
  without force and pull the second along the first axis, with force 1 and with force
  \<open>1e-5\<close>.
\<close>

definition two_atoms :: optimizable where
  "two_atoms = \<lparr> pos = [[Fin 1, Fin 0, Fin 0], [Fin 2, Fin 0, Fin 0]], batch_indices = [0, 1],
      natoms = [1, 1], batch_energy = None, batch_forces = None, has_edge_index = True,
      evaluations = 0, graph_updates = 0 \<rparr>"

definition pull_second :: calculator where
  "pull_second n p = ([Fin 0, Fin 0], [[Fin 0, Fin 0, Fin 0], [Fin 1, Fin 0, Fin 0]])"

definition weak_pull :: calculator where
  "weak_pull n p = ([Fin 0, Fin 0], [[Fin 0, Fin 0, Fin 0], [Fin (1 / 100000), Fin 0, Fin 0]])"

text \<open>
  A state after one step in which only the second atom moved, and the forces found there:
  the force on the second atom has halved.
\<close>

definition moved_state :: run_state where
  "moved_state = \<lparr> opt = two_atoms\<lparr> pos := [[Fin 1, Fin 0, Fin 0], [Fin (801 / 400), Fin 0, Fin 0]] \<rparr>,
      s_hist = [], y_hist = [], rho_hist = [],
      r0 = Some [[Fin 1, Fin 0, Fin 0], [Fin 2, Fin 0, Fin 0]],
      f0 = Some [[Fin 0, Fin 0, Fin 0], [Fin 1, Fin 0, Fin 0]], events = [] \<rparr>"

definition halved_forces :: ftensor where
  "halved_forces = [[Fin 0, Fin 0, Fin 0], [Fin (1 / 2), Fin 0, Fin 0]]"


section \<open>Properties of the sharded dataset index\<close>

lemma length_cumsum_from: "length (cumsum_from acc xs) = length xs"
  by (induction xs arbitrary: acc) auto

lemma nth_cumsum_from:
  "k < length xs \<Longrightarrow> cumsum_from acc xs ! k = acc + sum_list (take (Suc k) xs)"
proof (induction xs arbitrary: acc k)
  case Nil then show ?case by simp
next
  case (Cons x xs)
  show ?case
  proof (cases k)
    case 0 then show ?thesis by simp
  next
    case (Suc j)
    with Cons.prems have "j < length xs" by simp
    from Cons.IH[OF this, of "acc + x"] Suc show ?thesis by (simp add: add.assoc)
  qed
qed

lemma scan_cumulative_spec:
  assumes "\<forall>x \<in> set xs. 0 \<le> x" "acc \<le> idx" "idx < acc + sum_list xs"
  shows "\<exists>k < length xs. scan_cumulative (cumsum_from acc xs) i idx = i + k
           \<and> acc + sum_list (take k xs) \<le> idx \<and> idx < acc + sum_list (take (Suc k) xs)"
  using assms
proof (induction xs arbitrary: acc i)
  case Nil then show ?case by simp
next
  case (Cons x xs)
  show ?case
  proof (cases "acc + x > idx")
    case True
    then show ?thesis using Cons.prems by (intro exI[of _ 0]) simp
  next
    case False
    then have a: "acc + x \<le> idx" by simp
    have b: "idx < (acc + x) + sum_list xs" using Cons.prems by simp
    have c: "\<forall>x \<in> set xs. 0 \<le> x" using Cons.prems by simp
    from Cons.IH[OF c a b, of "Suc i"] obtain k where k: "k < length xs"
      "scan_cumulative (cumsum_from (acc + x) xs) (Suc i) idx = Suc i + k"
      "acc + x + sum_list (take k xs) \<le> idx" "idx < acc + x + sum_list (take (Suc k) xs)"
      by blast
    show ?thesis using k False by (intro exI[of _ "Suc k"]) (simp add: add.assoc)
  qed
qed

lemma scan_cumulative_none:
  "\<forall>c \<in> set cs. c \<le> idx \<Longrightarrow> scan_cumulative cs i idx = 0"
  by (induction cs arbitrary: i) auto

lemma prefix_sum_mono:
  assumes "\<forall>x \<in> set xs. (0::int) \<le> x" "j \<le> k"
  shows "sum_list (take j xs) \<le> sum_list (take k xs)"
proof -
  have "take k xs = take j xs @ take (k - j) (drop j xs)"
    using assms(2) by (metis le_add_diff_inverse take_add)
  moreover have "0 \<le> sum_list (take (k - j) (drop j xs))"
    using assms(1) by (intro sum_list_nonneg) (auto dest!: in_set_takeD in_set_dropD)
  ultimately show ?thesis by simp
qed

lemma prefix_sum_Suc:
  "k < length xs \<Longrightarrow> sum_list (take (Suc k) xs) = sum_list (take k xs) + (xs ! k :: int)"
  by (simp add: take_Suc_conv_app_nth)

lemma prefix_sum_le_total:
  assumes "\<forall>x \<in> set xs. (0::int) \<le> x"
  shows "sum_list (take k xs) \<le> sum_list xs"
  using prefix_sum_mono[OF assms, of k "length xs"] 
  by (cases "k \<le> length xs") auto

lemma block_unique:
  assumes nn: "\<forall>x \<in> set xs. (0::int) \<le> x"
    and a: "sum_list (take j xs) \<le> i" "i < sum_list (take (Suc j) xs)"
    and b: "sum_list (take k xs) \<le> i" "i < sum_list (take (Suc k) xs)"
  shows "j = k"
proof (rule ccontr)
  assume "j \<noteq> k"
  then consider "Suc j \<le> k" | "Suc k \<le> j" by linarith
  then show False
  proof cases
    case 1
    from prefix_sum_mono[OF nn 1] a b show False by linarith
  next
    case 2
    from prefix_sum_mono[OF nn 2] a b show False by linarith
  qed
qed

lemma scan_cumsum_block:
  assumes nn: "\<forall>x \<in> set xs. 0 \<le> x" and k: "k < length xs"
    and lo: "sum_list (take k xs) \<le> idx" and hi: "idx < sum_list (take (Suc k) xs)"
  shows "scan_cumulative (cumsum xs) 0 idx = k"
proof -
  have "0 \<le> sum_list (take k xs)"
    using nn by (intro sum_list_nonneg) (auto dest!: in_set_takeD)
  then have i0: "0 \<le> idx" using lo by linarith
  have "idx < sum_list xs" using hi prefix_sum_le_total[OF nn, of "Suc k"] by linarith
  with scan_cumulative_spec[OF nn, of 0 idx 0] i0
  obtain k' where k': "k' < length xs" "scan_cumulative (cumsum xs) 0 idx = k'"
      "sum_list (take k' xs) \<le> idx" "idx < sum_list (take (Suc k') xs)"
    by (auto simp: cumsum_def)
  from block_unique[OF nn k'(3,4) lo hi] k'(2) show ?thesis by simp
qed

lemma cumsum_nth: "k < length xs \<Longrightarrow> cumsum xs ! k = sum_list (take (Suc k) xs)"
  by (simp add: cumsum_def nth_cumsum_from)

lemma el_idx_block:
  assumes "k < length xs"
  shows "(if k \<noteq> 0 then idx - cumsum xs ! (k - 1) else idx) = idx - sum_list (take k xs)"
proof (cases k)
  case 0 then show ?thesis by simp
next
  case (Suc j)
  then have "j < length xs" using assms by simp
  then show ?thesis using Suc by (simp add: cumsum_nth)
qed

lemma dataset_init_fields:
  assumes "dataset_init dbs tr = Inr ds"
  shows "db_paths ds = dbs" "dbs \<noteq> []"
    "keys ds = map (\<lambda>d. py_range (stored_length d)) dbs"
    "keylens ds = map (\<lambda>d. int (length (py_range (stored_length d)))) dbs"
    "keylen_cumulative ds = cumsum (keylens ds)"
    "transform ds = tr"
  using assms by (auto simp: dataset_init_def Let_def split: if_splits)

lemma dataset_init_nonneg:
  assumes "dataset_init dbs tr = Inr ds"
  shows "\<forall>x \<in> set (keylens ds). 0 \<le> x"
  using dataset_init_fields(4)[OF assms] by auto

lemma py_range_nth: "l < length (py_range n) \<Longrightarrow> py_range n ! l = int l"
  by (simp add: py_range_def)

lemma resolve_block:
  assumes init: "dataset_init dbs tr = Inr ds"
    and k: "k < length (keylens ds)"
    and lo: "sum_list (take k (keylens ds)) \<le> idx"
    and hi: "idx < sum_list (take (Suc k) (keylens ds))"
  shows "resolve ds idx = (k, idx - sum_list (take k (keylens ds)))"
proof -
  have cum: "keylen_cumulative ds = cumsum (keylens ds)"
    by (rule dataset_init_fields(5)[OF init])
  have "scan_cumulative (cumsum (keylens ds)) 0 idx = k"
    by (rule scan_cumsum_block[OF dataset_init_nonneg[OF init] k lo hi])
  then have "resolve ds idx = (k, (if k \<noteq> 0 then idx - cumsum (keylens ds) ! (k - 1) else idx))"
    by (simp only: resolve_def cum Let_def)
  then show ?thesis by (simp only: el_idx_block[OF k, of idx])
qed

lemma resolve_in_range:
  assumes init: "dataset_init dbs tr = Inr ds"
    and i: "0 \<le> idx" "idx < dataset_len ds"
  shows "\<exists>k < length (keylens ds).
           resolve ds idx = (k, idx - sum_list (take k (keylens ds)))
         \<and> sum_list (take k (keylens ds)) \<le> idx
         \<and> idx < sum_list (take (Suc k) (keylens ds))"
proof -
  from scan_cumulative_spec[OF dataset_init_nonneg[OF init], of 0 idx 0] i
  obtain k where k: "k < length (keylens ds)"
      "sum_list (take k (keylens ds)) \<le> idx" "idx < sum_list (take (Suc k) (keylens ds))"
    by (auto simp: dataset_len_def)
  from resolve_block[OF init k] k show ?thesis by blast
qed

lemma resolve_bij:
  assumes init: "dataset_init dbs tr = Inr ds"
  shows "bij_betw (resolve ds) {0..<dataset_len ds} (valid_pairs ds)"
proof (rule bij_betw_byWitness[where f' = "\<lambda>(s, l). sum_list (take s (keylens ds)) + l"])
  note nn = dataset_init_nonneg[OF init]
  show "\<forall>a\<in>{0..<dataset_len ds}. (case resolve ds a of (s, l) \<Rightarrow> sum_list (take s (keylens ds)) + l) = a"
  proof
    fix a assume "a \<in> {0..<dataset_len ds}"
    then have "0 \<le> a" "a < dataset_len ds" by auto
    from resolve_in_range[OF init this] show "(case resolve ds a of (s, l) \<Rightarrow> sum_list (take s (keylens ds)) + l) = a"
      by auto
  qed
  show "\<forall>a'\<in>valid_pairs ds. resolve ds (case a' of (s, l) \<Rightarrow> sum_list (take s (keylens ds)) + l) = a'"
  proof
    fix a' assume "a' \<in> valid_pairs ds"
    then obtain s l where a': "a' = (s, l)" and s: "s < length (keylens ds)"
      and l: "0 \<le> l" "l < keylens ds ! s"
      by (auto simp: valid_pairs_def)
    have "resolve ds (sum_list (take s (keylens ds)) + l) =
        (s, sum_list (take s (keylens ds)) + l - sum_list (take s (keylens ds)))"
      using l by (intro resolve_block[OF init s]) (simp_all add: prefix_sum_Suc[OF s])
    then show "resolve ds (case a' of (s, l) \<Rightarrow> sum_list (take s (keylens ds)) + l) = a'"
      by (simp add: a')
  qed
  show "resolve ds ` {0..<dataset_len ds} \<subseteq> valid_pairs ds"
  proof
    fix p assume "p \<in> resolve ds ` {0..<dataset_len ds}"
    then obtain a where a: "0 \<le> a" "a < dataset_len ds" "p = resolve ds a" by auto
    from resolve_in_range[OF init a(1,2)] obtain k where k: "k < length (keylens ds)"
      "resolve ds a = (k, a - sum_list (take k (keylens ds)))"
      "sum_list (take k (keylens ds)) \<le> a" "a < sum_list (take (Suc k) (keylens ds))"
      by blast
    then show "p \<in> valid_pairs ds"
      using a(3) by (simp add: valid_pairs_def prefix_sum_Suc[OF k(1)])
  qed
  show "(\<lambda>(s, l). sum_list (take s (keylens ds)) + l) ` valid_pairs ds \<subseteq> {0..<dataset_len ds}"
  proof
    fix a assume "a \<in> (\<lambda>(s, l). sum_list (take s (keylens ds)) + l) ` valid_pairs ds"
    then obtain s l where a: "a = sum_list (take s (keylens ds)) + l" and s: "s < length (keylens ds)"
      and l: "0 \<le> l" "l < keylens ds ! s"
      by (auto simp: valid_pairs_def)
    have "0 \<le> sum_list (take s (keylens ds))"
      using nn by (intro sum_list_nonneg) (auto dest!: in_set_takeD)
    moreover have "sum_list (take (Suc s) (keylens ds)) \<le> sum_list (keylens ds)"
      by (rule prefix_sum_le_total[OF nn])
    ultimately show "a \<in> {0..<dataset_len ds}"
      using a l by (simp add: dataset_len_def prefix_sum_Suc[OF s])
  qed
qed

lemma getitem_valid:
  assumes init: "dataset_init dbs tr = Inr ds"
    and r: "resolve ds idx = (s, l)" and s: "s < length (keylens ds)"
    and l: "0 \<le> l" "l < keylens ds ! s"
  shows "getitem ds idx =
          (case entries (dbs ! s) l of None \<Rightarrow> Inl TypeError
           | Some d \<Rightarrow> Inr (case tr of None \<Rightarrow> d | Some f \<Rightarrow> f d))"
proof -
  note f = dataset_init_fields[OF init]
  have s': "s < length dbs" using s by (simp add: f(4))
  have len: "keylens ds ! s = int (length (keys ds ! s))"
    using s' by (simp add: f(3,4))
  have "nat l < length (py_range (stored_length (dbs ! s)))"
    using l len s' by (simp add: f(3))
  then have key: "keys ds ! s ! nat l = l"
    using s' l by (simp add: f(3) py_range_nth)
  show ?thesis
    using l s' len by (simp add: getitem_def r key f(1)) (simp add: f(3) f(6) split: option.splits)
qed

lemma resolve_beyond:
  assumes init: "dataset_init dbs tr = Inr ds" and i: "dataset_len ds \<le> idx"
  shows "\<forall>c \<in> set (keylen_cumulative ds). \<not> c > idx" "resolve ds idx = (0, idx)"
proof -
  note nn = dataset_init_nonneg[OF init]
  have cum: "keylen_cumulative ds = cumsum (keylens ds)"
    by (rule dataset_init_fields(5)[OF init])
  show a: "\<forall>c \<in> set (keylen_cumulative ds). \<not> c > idx"
  proof
    fix c assume "c \<in> set (keylen_cumulative ds)"
    then obtain k where "k < length (keylens ds)" "c = cumsum (keylens ds) ! k"
      by (auto simp: cum in_set_conv_nth cumsum_def length_cumsum_from)
    then have "c = sum_list (take (Suc k) (keylens ds))" by (simp add: cumsum_nth)
    with prefix_sum_le_total[OF nn, of "Suc k"] i show "\<not> c > idx"
      by (simp add: dataset_len_def)
  qed
  then have "scan_cumulative (keylen_cumulative ds) 0 idx = 0"
    by (intro scan_cumulative_none) auto
  then show "resolve ds idx = (0, idx)" by (simp add: resolve_def)
qed

lemma getitem_beyond:
  assumes init: "dataset_init dbs tr = Inr ds" and i: "dataset_len ds \<le> idx"
  shows "0 \<le> idx" "\<not> idx < int (length (keys ds ! 0))" "getitem ds idx = Inl IndexError"
proof -
  note f = dataset_init_fields[OF init]
  note nn = dataset_init_nonneg[OF init]
  have "0 \<le> dataset_len ds" unfolding dataset_len_def using nn by (intro sum_list_nonneg) auto
  then show i0: "0 \<le> idx" using i by simp
  have ne: "0 < length dbs" using f(2) by simp
  have "keylens ds ! 0 = sum_list (take (Suc 0) (keylens ds))"
    using ne by (cases "keylens ds") (auto simp: f(4))
  also have "\<dots> \<le> sum_list (keylens ds)" by (rule prefix_sum_le_total[OF nn])
  finally have "keylens ds ! 0 \<le> idx" using i by (simp add: dataset_len_def)
  moreover have "keylens ds ! 0 = int (length (keys ds ! 0))"
    using ne by (simp add: f(3,4))
  ultimately show b: "\<not> idx < int (length (keys ds ! 0))" by simp
  show "getitem ds idx = Inl IndexError"
    using i0 b ne by (simp add: getitem_def resolve_beyond(2)[OF init i] f(1) f(3))
qed

text \<open>
  Claim C4.  For a dataset built by \<open>__init__\<close> and every global index \<open>i\<close> with
  \<open>0 \<le> i < len\<close>, \<open>__getitem__\<close> resolves \<open>i\<close> to one pair (shard, local index): the
  shard is the first whose cumulative count strictly exceeds \<open>i\<close>, the local index lies
  in \<open>[0, L_shard)\<close>, and the record read is the one stored in that shard under that
  local index.  The map from indices to pairs is a bijection between \<open>[0, len)\<close> and the
  set of all valid (shard, local index) pairs.
\<close>

theorem getitem_resolves_bijectively:
  assumes "dataset_init dbs tr = Inr ds"
  shows "(\<forall>i. 0 \<le> i \<and> i < dataset_len ds \<longrightarrow>
            (\<exists>s l. resolve ds i = (s, l) \<and> s < length (keylens ds)
                 \<and> i < keylen_cumulative ds ! s \<and> (\<forall>j<s. \<not> i < keylen_cumulative ds ! j)
                 \<and> 0 \<le> l \<and> l < keylens ds ! s
                 \<and> getitem ds i = (case entries (dbs ! s) l of None \<Rightarrow> Inl TypeError
                      | Some d \<Rightarrow> Inr (case tr of None \<Rightarrow> d | Some f \<Rightarrow> f d))))
         \<and> bij_betw (resolve ds) {0..<dataset_len ds} (valid_pairs ds)"
proof (intro conjI allI impI)
  show "bij_betw (resolve ds) {0..<dataset_len ds} (valid_pairs ds)"
    by (rule resolve_bij[OF assms])
next
  fix i assume "0 \<le> i \<and> i < dataset_len ds"
  then have i: "0 \<le> i" "i < dataset_len ds" by auto
  note nn = dataset_init_nonneg[OF assms]
  have cum: "keylen_cumulative ds = cumsum (keylens ds)"
    by (rule dataset_init_fields(5)[OF assms])
  from resolve_in_range[OF assms i] obtain k where k: "k < length (keylens ds)"
      "resolve ds i = (k, i - sum_list (take k (keylens ds)))"
      "sum_list (take k (keylens ds)) \<le> i" "i < sum_list (take (Suc k) (keylens ds))"
    by blast
  let ?l = "i - sum_list (take k (keylens ds))"
  have l: "0 \<le> ?l" "?l < keylens ds ! k"
    using k(3,4) by (simp_all add: prefix_sum_Suc[OF k(1)])
  have first: "\<forall>j<k. \<not> i < keylen_cumulative ds ! j"
  proof (intro allI impI)
    fix j assume j: "j < k"
    then have "Suc j \<le> k" by simp
    from prefix_sum_mono[OF nn this] k(3) j k(1) show "\<not> i < keylen_cumulative ds ! j"
      by (simp add: cum cumsum_nth)
  qed
  have "i < keylen_cumulative ds ! k" using k(1,4) by (simp add: cum cumsum_nth)
  with k(1,2) l first getitem_valid[OF assms k(2) k(1) l]
  show "\<exists>s l. resolve ds i = (s, l) \<and> s < length (keylens ds)
                 \<and> i < keylen_cumulative ds ! s \<and> (\<forall>j<s. \<not> i < keylen_cumulative ds ! j)
                 \<and> 0 \<le> l \<and> l < keylens ds ! s
                 \<and> getitem ds i = (case entries (dbs ! s) l of None \<Rightarrow> Inl TypeError
                      | Some d \<Rightarrow> Inr (case tr of None \<Rightarrow> d | Some f \<Rightarrow> f d))"
    by blast
qed

lemma example_dataset:
  "dataset_init example_shards None =
     Inr \<lparr> db_paths = example_shards, keys = [[0, 1], [], [0, 1, 2]], keylens = [2, 0, 3],
           keylen_cumulative = [2, 2, 5], transform = None \<rparr>"
  by (simp add: dataset_init_def example_shards_def py_range_def cumsum_def upt_rec numeral_2_eq_2 numeral_3_eq_3)

text \<open>Claim C4 at the three-shard example: index 2 is the first record of the third shard.\<close>

theorem getitem_resolves_bijectively_witness:
  "\<exists>ds. dataset_init example_shards None = Inr ds \<and> dataset_len ds = 5
      \<and> resolve ds 2 = (2, 0) \<and> getitem ds 2 = Inr ''c0''
      \<and> bij_betw (resolve ds) {0..<5} (valid_pairs ds)"
proof -
  let ?ds = "\<lparr> db_paths = example_shards, keys = [[0, 1], [], [0, 1, 2]], keylens = [2, 0, 3],
           keylen_cumulative = [2, 2, 5], transform = None \<rparr>"
  have len: "dataset_len ?ds = 5" by (simp add: dataset_len_def)
  have r: "resolve ?ds 2 = (2, 0)" by (simp add: resolve_def)
  have g: "getitem ?ds 2 = Inr ''c0''" by (simp add: getitem_def r) (simp add: example_shards_def)
  from getitem_resolves_bijectively[OF example_dataset] len
  have "bij_betw (resolve ?ds) {0..<5} (valid_pairs ?ds)" by simp
  with example_dataset len r g show ?thesis by blast
qed

text \<open>
  Claim C9.  For every global index \<open>idx\<close> at or beyond the dataset length there is no
  bounds check: no cumulative count exceeds \<open>idx\<close>, so the scan leaves shard 0 and the
  local index is \<open>idx\<close> itself; the assertion \<open>el_idx \<ge> 0\<close> passes; the local index is out
  of range for the key list of shard 0, and \<open>__getitem__\<close> raises IndexError there, so it
  returns no record.
\<close>

theorem getitem_beyond_length:
  assumes "dataset_init dbs tr = Inr ds" and "dataset_len ds \<le> idx"
  shows "(\<forall>c \<in> set (keylen_cumulative ds). \<not> c > idx)
       \<and> resolve ds idx = (0, idx) \<and> 0 \<le> idx
       \<and> \<not> idx < int (length (keys ds ! 0))
       \<and> getitem ds idx = Inl IndexError"
  using resolve_beyond[OF assms] getitem_beyond[OF assms] by blast

text \<open>Claim C9 at the three-shard example (length 5) and index 7.\<close>

theorem getitem_beyond_length_witness:
  "\<exists>ds. dataset_init example_shards None = Inr ds \<and> dataset_len ds \<le> 7
      \<and> resolve ds 7 = (0, 7) \<and> getitem ds 7 = Inl IndexError"
proof -
  let ?ds = "\<lparr> db_paths = example_shards, keys = [[0, 1], [], [0, 1, 2]], keylens = [2, 0, 3],
           keylen_cumulative = [2, 2, 5], transform = None \<rparr>"
  have len: "dataset_len ?ds \<le> 7" by (simp add: dataset_len_def)
  from getitem_beyond_length[OF example_dataset len] example_dataset len
  show ?thesis by blast
qed

section \<open>Properties of the evaluation engine\<close>

lemmas ewt_defs = energy_within_threshold_def getkey_def tensor1_def tsub_def size0_def

lemma energy_within_threshold_counts:
  assumes "length p = length t" "t \<noteq> []"
  shows "energy_within_threshold [''energy'' \<mapsto> tensor1 p] [''energy'' \<mapsto> tensor1 t] =
     Inr \<lparr> s_metric = Fin (real (length (filter (\<lambda>(x, y). \<bar>x - y\<bar> < 0.02) (zip t p)))
                              / real (length t)),
           s_total = real (length (filter (\<lambda>(x, y). \<bar>x - y\<bar> < 0.02) (zip t p))),
           s_numel = int (length t) \<rparr>"
proof -
  have "filter (\<lambda>x. x < 0.02) (map abs (map2 (\<lambda>x y. x - y) t p)) =
        map (\<lambda>(x, y). \<bar>x - y\<bar>) (filter (\<lambda>(x, y). \<bar>x - y\<bar> < 0.02) (zip t p))"
    by (induction "zip t p" arbitrary: t p) (auto simp: filter_map comp_def case_prod_unfold)
  then have "length (filter (\<lambda>x. x < 0.02) (map abs (map2 (\<lambda>x y. x - y) t p))) =
        length (filter (\<lambda>(x, y). \<bar>x - y\<bar> < 0.02) (zip t p))"
    by simp
  then show ?thesis using assms by (simp add: ewt_defs Let_def)
qed

text \<open>
  Claim C7.  For target energies [1.0, 2.0] and predicted energies [1.01, 2.03],
  \<open>energy_within_threshold\<close> returns the record with total 1, numel 2 and metric 0.5, and
  the one success is the first sample: the first sample alone is a success (total 1 of 1),
  the second alone is not (total 0 of 1), and so it is with the samples in the other
  order.  In general the total is the number of samples whose absolute error is strictly
  below 0.02, the count is the number of samples and the metric their quotient.
\<close>

theorem energy_within_threshold_scenario:
  "energy_within_threshold [''energy'' \<mapsto> tensor1 [1.01, 2.03]] [''energy'' \<mapsto> tensor1 [1.0, 2.0]]
     = Inr \<lparr> s_metric = Fin 0.5, s_total = 1, s_numel = 2 \<rparr>
   \<and> energy_within_threshold [''energy'' \<mapsto> tensor1 [1.01]] [''energy'' \<mapsto> tensor1 [1.0]]
     = Inr \<lparr> s_metric = Fin 1, s_total = 1, s_numel = 1 \<rparr>
   \<and> energy_within_threshold [''energy'' \<mapsto> tensor1 [2.03]] [''energy'' \<mapsto> tensor1 [2.0]]
     = Inr \<lparr> s_metric = Fin 0, s_total = 0, s_numel = 1 \<rparr>
   \<and> energy_within_threshold [''energy'' \<mapsto> tensor1 [2.03, 1.01]] [''energy'' \<mapsto> tensor1 [2.0, 1.0]]
     = Inr \<lparr> s_metric = Fin 0.5, s_total = 1, s_numel = 2 \<rparr>
   \<and> map (\<lambda>(x, y). \<bar>x - y\<bar> < (0.02 :: real)) (zip [1.0, 2.0] [1.01, 2.03]) = [True, False]
   \<and> (length p = length t \<and> t \<noteq> [] \<longrightarrow>
        energy_within_threshold [''energy'' \<mapsto> tensor1 p] [''energy'' \<mapsto> tensor1 t] =
          Inr \<lparr> s_metric = Fin (real (length (filter (\<lambda>(x, y). \<bar>x - y\<bar> < 0.02) (zip t p)))
                                   / real (length t)),
                s_total = real (length (filter (\<lambda>(x, y). \<bar>x - y\<bar> < 0.02) (zip t p))),
                s_numel = int (length t) \<rparr>)"
  using energy_within_threshold_counts[of p t] by (simp add: ewt_defs)

text \<open>
  Claim C7, the general count at three samples of which the first and the last are within
  the threshold.
\<close>

theorem energy_within_threshold_scenario_witness:
  "length [101 / 100, 203 / 100, 3 :: real] = length [1, 2, 3 :: real] \<and> [1, 2, 3 :: real] \<noteq> []
   \<and> energy_within_threshold [''energy'' \<mapsto> tensor1 [101 / 100, 203 / 100, 3]]
         [''energy'' \<mapsto> tensor1 [1, 2, 3]]
       = Inr \<lparr> s_metric = Fin (2 / 3), s_total = 2, s_numel = 3 \<rparr>"
  using energy_within_threshold_scenario[of "[101 / 100, 203 / 100, 3]" "[1, 2, 3]"] by simp

lemma update_frame:
  "snd (update key stat m h) b k = (if b = m \<and> k = key then snd (update key stat m h) m key else h b k)"
  by (auto simp: update_def store_acc_def Let_def split: stat_arg.splits option.splits)

lemma update_addr: "update key stat m h = (Inr a, h') \<Longrightarrow> a = m"
  by (auto simp: update_def Let_def split: stat_arg.splits if_splits)




lemma update_other_addr: "b \<noteq> m \<Longrightarrow> snd (update key stat m h) b = h b"
  by (auto simp: update_def store_acc_def Let_def split: stat_arg.splits option.splits)

lemma update_other_key: "k \<noteq> key \<Longrightarrow> snd (update key stat m h) m k = h m k"
  by (auto simp: update_def store_acc_def Let_def split: stat_arg.splits option.splits)

lemma update_dict_acc:
  assumes "update key (StatDict d) m h = (Inr a, h')"
  shows "a = m" "acc_total h' m key = acc_total h m key + s_total d"
        "acc_numel h' m key = acc_numel h m key + s_numel d"
  using assms
  by (auto simp: update_def store_acc_def Let_def acc_total_def acc_numel_def
      split: option.splits if_splits)

lemma eval_metric_fn_addr:
  "eval_metric_fn fns fn p t m pre n h = (Inr a, h') \<Longrightarrow> a = m"
  by (auto simp: eval_metric_fn_def Let_def split: sum.splits option.splits if_splits
      dest: update_addr)

lemma eval_metric_fn_other_addr:
  "b \<noteq> m \<Longrightarrow> snd (eval_metric_fn fns fn p t m pre n h) b = h b"
  by (auto simp: eval_metric_fn_def Let_def update_other_addr split: sum.splits option.splits)

lemma eval_metric_fn_other_key:
  "k \<noteq> (case pre of None \<Rightarrow> fn | Some q \<Rightarrow> q @ fn) \<Longrightarrow>
     snd (eval_metric_fn fns fn p t m pre n h) m k = h m k"
  by (auto simp: eval_metric_fn_def Let_def update_other_key split: sum.splits option.splits)

lemma eval_metric_fn_plain_acc:
  assumes "eval_metric_fn fns fn p t m None None h = (Inr a, h')"
  shows "acc_total h' m fn = acc_total h m fn + stat_total fns fn p t"
        "acc_numel h' m fn = acc_numel h m fn + stat_numel fns fn p t"
  using assms update_dict_acc(2,3)[of fn _ m h a h']
  by (auto simp: eval_metric_fn_def stat_total_def stat_numel_def split: sum.splits)

lemma atomwise_loop_Cons_cases:
  obtains (early) e where
      "atomwise_loop fns fn mk zs p t ((z, l) # am) m h = (Inl e, h)"
  | (call) p' t' n r h1 where
      "eval_metric_fn fns fn p' t' m (Some (''atomwise_'' @ l @ ''_'')) n h = (r, h1)"
      "atomwise_loop fns fn mk zs p t ((z, l) # am) m h =
         (case r of Inl e \<Rightarrow> (Inl e, h1)
          | Inr m' \<Rightarrow> atomwise_loop fns fn mk zs p t am m' h1)"
proof -
  let ?msk = "map (\<lambda>x. x = z) zs"
  show thesis
  proof (cases "getkey p mk")
    case (Inl e) then show ?thesis by (intro early[of e]) (simp add: Let_def)
  next
    case p: (Inr pv)
    show ?thesis
    proof (cases "mask_fill ?msk pv")
      case (Inl e) then show ?thesis using p by (intro early[of e]) (simp add: Let_def)
    next
      case p': (Inr pv')
      show ?thesis
      proof (cases "getkey t mk")
        case (Inl e) then show ?thesis using p p' by (intro early[of e]) (simp add: Let_def)
      next
        case t: (Inr tv)
        show ?thesis
        proof (cases "mask_fill ?msk tv")
          case (Inl e) then show ?thesis using p p' t by (intro early[of e]) (simp add: Let_def)
        next
          case t': (Inr tv')
          obtain r h1 where e: "eval_metric_fn fns fn (p(mk \<mapsto> pv')) (t(mk \<mapsto> tv')) m
              (Some (''atomwise_'' @ l @ ''_'')) (Some (int (length (filter id ?msk)) * 3)) h = (r, h1)"
            by fastforce
          show ?thesis
          proof (rule call[OF e])
            show "atomwise_loop fns fn mk zs p t ((z, l) # am) m h =
               (case r of Inl e \<Rightarrow> (Inl e, h1)
                | Inr m' \<Rightarrow> atomwise_loop fns fn mk zs p t am m' h1)"
              using p p' t t' e[simplified] by (simp add: Let_def split: sum.splits)
          qed
        qed
      qed
    qed
  qed
qed

lemma atomwise_loop_addr:
  "atomwise_loop fns fn mk zs p t am m h = (Inr a, h') \<Longrightarrow> a = m"
proof (induction am arbitrary: h)
  case Nil then show ?case by simp
next
  case (Cons x am)
  obtain z l where x: "x = (z, l)" by (cases x)
  show ?case
  proof (cases rule: atomwise_loop_Cons_cases[of fns fn mk zs p t z l am m h])
    case (early e) then show ?thesis using Cons.prems x by simp
  next
    case (call p' t' n r h1)
    with Cons.prems x obtain m' where r: "r = Inr m'" by (cases r) auto
    then have "m' = m" using call(1) eval_metric_fn_addr by blast
    with call(2) r Cons.prems x have "atomwise_loop fns fn mk zs p t am m h1 = (Inr a, h')" by simp
    then show ?thesis by (rule Cons.IH)
  qed
qed

lemma atomwise_loop_other_addr:
  assumes b: "b \<noteq> m"
  shows "snd (atomwise_loop fns fn mk zs p t am m h) b = h b"
proof (induction am arbitrary: h)
  case Nil then show ?case by simp
next
  case (Cons x am)
  obtain z l where x: "x = (z, l)" by (cases x)
  show ?case
  proof (cases rule: atomwise_loop_Cons_cases[of fns fn mk zs p t z l am m h])
    case (early e) then show ?thesis using x by simp
  next
    case (call p' t' n r h1)
    have h1: "h1 b = h b"
      using eval_metric_fn_other_addr[OF b, of fns fn p' t' "Some (''atomwise_'' @ l @ ''_'')" n h]
      by (simp only: call(1) snd_conv)
    show ?thesis
    proof (cases r)
      case (Inl e) then show ?thesis using call(2) x h1 by simp
    next
      case (Inr m')
      then have "m' = m" using call(1) eval_metric_fn_addr by blast
      then show ?thesis using call(2) x h1 Inr Cons.IH[of h1] by simp
    qed
  qed
qed

lemma eval_metric_fn_prefixed_key:
  assumes "take 9 q = ''atomwise_''" "take 9 k \<noteq> ''atomwise_''"
  shows "snd (eval_metric_fn fns fn p t m (Some q) n h) m k = h m k"
proof -
  have "length q \<ge> 9" using assms(1) by (cases "length q \<ge> 9") auto
  then have "take 9 (q @ fn) = take 9 q" by simp
  with assms have "k \<noteq> q @ fn" by auto
  then show ?thesis using eval_metric_fn_other_key[where k = k and pre = "Some q" and fn = fn] by simp
qed

lemma atomwise_loop_other_key:
  assumes k: "take 9 k \<noteq> ''atomwise_''"
  shows "snd (atomwise_loop fns fn mk zs p t am m h) m k = h m k"
proof (induction am arbitrary: h)
  case Nil then show ?case by simp
next
  case (Cons x am)
  obtain z l where x: "x = (z, l)" by (cases x)
  have q: "take 9 (''atomwise_'' @ l @ ''_'') = ''atomwise_''" by simp
  show ?case
  proof (cases rule: atomwise_loop_Cons_cases[of fns fn mk zs p t z l am m h])
    case (early e) then show ?thesis using x by simp
  next
    case (call p' t' n r h1)
    have h1: "h1 m k = h m k"
      using eval_metric_fn_prefixed_key[OF q k, of fns fn p' t' m n h]
      by (simp only: call(1) snd_conv)
    show ?thesis
    proof (cases r)
      case (Inl e) then show ?thesis using call(2) x h1 by simp
    next
      case (Inr m')
      then have "m' = m" using call(1) eval_metric_fn_addr by blast
      then show ?thesis using call(2) x h1 Inr Cons.IH[of h1] by simp
    qed
  qed
qed

lemma eval_atomwise_metrics_addr:
  "eval_atomwise_metrics ev fns fn an p t m h = (Inr a, h') \<Longrightarrow> a = m"
  by (auto simp: eval_atomwise_metrics_def Let_def split: option.splits if_splits
      dest: atomwise_loop_addr)

lemma eval_atomwise_metrics_other_addr:
  "b \<noteq> m \<Longrightarrow> snd (eval_atomwise_metrics ev fns fn an p t m h) b = h b"
  by (auto simp: eval_atomwise_metrics_def Let_def atomwise_loop_other_addr split: option.splits)

lemma eval_atomwise_metrics_other_key:
  "take 9 k \<noteq> ''atomwise_'' \<Longrightarrow> snd (eval_atomwise_metrics ev fns fn an p t m h) m k = h m k"
  by (auto simp: eval_atomwise_metrics_def Let_def atomwise_loop_other_key split: option.splits)

lemma acc_total_cong: "h' m k = h m k \<Longrightarrow> acc_total h' m k = acc_total h m k"
  by (simp add: acc_total_def)

lemma acc_numel_cong: "h' m k = h m k \<Longrightarrow> acc_numel h' m k = acc_numel h m k"
  by (simp add: acc_numel_def)

text \<open>One metric name of the loop of eval: the plain evaluation and the optional atomwise one.\<close>

lemma eval_loop_addr:
  "eval_loop ev fns fl p t an m h = (Inr a, h') \<Longrightarrow> a = m"
proof (induction fl arbitrary: h)
  case Nil then show ?case by simp
next
  case (Cons fn fl)
  obtain r1 h1 where e1: "eval_metric_fn fns fn p t m None None h = (r1, h1)" by fastforce
  with Cons.prems obtain m1 where r1: "r1 = Inr m1" by (cases r1) auto
  then have m1: "m1 = m" using e1 eval_metric_fn_addr by blast
  show ?case
  proof (cases "an \<noteq> None \<and> fn \<in> atomic_number_metrics ev")
    case False
    then have "eval_loop ev fns fl p t an m h1 = (Inr a, h')"
      using Cons.prems e1 r1 m1 by auto
    then show ?thesis by (rule Cons.IH)
  next
    case True
    obtain r2 h2 where e2: "eval_atomwise_metrics ev fns fn an p t m h1 = (r2, h2)" by fastforce
    with Cons.prems e1 r1 m1 True obtain m2 where r2: "r2 = Inr m2" by (cases r2) auto
    then have m2: "m2 = m" using e2 eval_atomwise_metrics_addr by blast
    have "eval_loop ev fns fl p t an m h2 = (Inr a, h')"
      using Cons.prems e1 r1 m1 e2 r2 m2 True by auto
    then show ?thesis by (rule Cons.IH)
  qed
qed

lemma eval_loop_other_addr:
  "b \<noteq> m \<Longrightarrow> snd (eval_loop ev fns fl p t an m h) b = h b"
proof (induction fl arbitrary: h)
  case Nil then show ?case by simp
next
  case (Cons fn fl)
  obtain r1 h1 where e1: "eval_metric_fn fns fn p t m None None h = (r1, h1)" by fastforce
  have h1: "h1 b = h b" using eval_metric_fn_other_addr[OF Cons.prems, of fns fn p t None None h] e1 by simp
  show ?case
  proof (cases r1)
    case (Inl e) then show ?thesis using e1 h1 by simp
  next
    case (Inr m1)
    then have m1: "m1 = m" using e1 eval_metric_fn_addr by blast
    obtain r2 h2 where e2: "eval_atomwise_metrics ev fns fn an p t m h1 = (r2, h2)" by fastforce
    have h2: "h2 b = h b"
      using eval_atomwise_metrics_other_addr[OF Cons.prems, of ev fns fn an p t h1] e2 h1 by simp
    show ?thesis
    proof (cases "an \<noteq> None \<and> fn \<in> atomic_number_metrics ev")
      case False
      then show ?thesis using e1 Inr m1 h1 Cons.IH[OF Cons.prems, of h1] by auto
    next
      case True
      show ?thesis
      proof (cases r2)
        case (Inl e) then show ?thesis using e1 e2 \<open>r1 = Inr m1\<close> m1 True h2 by auto
      next
        case (Inr m2)
        then have "m2 = m" using e2 eval_atomwise_metrics_addr by blast
        then show ?thesis
          using e1 e2 \<open>r1 = Inr m1\<close> m1 True h2 Inr Cons.IH[OF Cons.prems, of h2] by auto
      qed
    qed
  qed
qed

lemma eval_loop_acc:
  assumes "eval_loop ev fns fl p t an m h = (Inr a, h')"
    and "distinct fl" and "\<forall>f \<in> set fl. take 9 f \<noteq> ''atomwise_''"
    and "take 9 k \<noteq> ''atomwise_''"
  shows "acc_total h' m k = acc_total h m k + (if k \<in> set fl then stat_total fns k p t else 0)
       \<and> acc_numel h' m k = acc_numel h m k + (if k \<in> set fl then stat_numel fns k p t else 0)"
  using assms
proof (induction fl arbitrary: h)
  case Nil then show ?case by simp
next
  case (Cons fn fl)
  obtain r1 h1 where e1: "eval_metric_fn fns fn p t m None None h = (r1, h1)" by fastforce
  with Cons.prems(1) obtain m1 where r1: "r1 = Inr m1" by (cases r1) auto
  then have m1: "m1 = m" using e1 eval_metric_fn_addr by blast
  note e1' = e1[unfolded r1 m1]
  have s1: "acc_total h1 m k = acc_total h m k + (if k = fn then stat_total fns k p t else 0)"
           "acc_numel h1 m k = acc_numel h m k + (if k = fn then stat_numel fns k p t else 0)"
  proof -
    show "acc_total h1 m k = acc_total h m k + (if k = fn then stat_total fns k p t else 0)"
    proof (cases "k = fn")
      case True then show ?thesis using eval_metric_fn_plain_acc(1)[OF e1'] by simp
    next
      case False
      then have "h1 m k = h m k"
        using eval_metric_fn_other_key[where k = k and pre = None and fn = fn and fns = fns
            and p = p and t = t and m = m and n = None and h = h] e1 by simp
      then show ?thesis using False by (simp add: acc_total_def)
    qed
    show "acc_numel h1 m k = acc_numel h m k + (if k = fn then stat_numel fns k p t else 0)"
    proof (cases "k = fn")
      case True then show ?thesis using eval_metric_fn_plain_acc(2)[OF e1'] by simp
    next
      case False
      then have "h1 m k = h m k"
        using eval_metric_fn_other_key[where k = k and pre = None and fn = fn and fns = fns
            and p = p and t = t and m = m and n = None and h = h] e1 by simp
      then show ?thesis using False by (simp add: acc_numel_def)
    qed
  qed
  have d: "distinct fl" "\<forall>f \<in> set fl. take 9 f \<noteq> ''atomwise_''" "fn \<notin> set fl"
    using Cons.prems(2,3) by auto
  show ?case
  proof (cases "an \<noteq> None \<and> fn \<in> atomic_number_metrics ev")
    case False
    then have "eval_loop ev fns fl p t an m h1 = (Inr a, h')"
      using Cons.prems(1) e1' by auto
    from Cons.IH[OF this d(1,2) Cons.prems(4)] s1 d(3) show ?thesis by auto
  next
    case True
    obtain r2 h2 where e2: "eval_atomwise_metrics ev fns fn an p t m h1 = (r2, h2)" by fastforce
    with Cons.prems(1) e1' True obtain m2 where r2: "r2 = Inr m2" by (cases r2) auto
    then have m2: "m2 = m" using e2 eval_atomwise_metrics_addr by blast
    have "h2 m k = h1 m k"
      using eval_atomwise_metrics_other_key[OF Cons.prems(4), of ev fns fn an p t m h1] e2 by simp
    then have s2: "acc_total h2 m k = acc_total h1 m k" "acc_numel h2 m k = acc_numel h1 m k"
      by (simp_all add: acc_total_def acc_numel_def)
    have "eval_loop ev fns fl p t an m h2 = (Inr a, h')"
      using Cons.prems(1) e1' e2 r2 m2 True by auto
    from Cons.IH[OF this d(1,2) Cons.prems(4)] s1 s2 d(3) show ?thesis by auto
  qed
qed

lemma task_metrics_distinct: "distinct (task_metrics tk)"
  by (cases tk) (simp_all add: task_metrics_def)

lemma task_metrics_plain: "\<forall>f \<in> set (task_metrics tk). take 9 f \<noteq> ''atomwise_''"
  by (cases tk) (simp_all add: task_metrics_def)

lemma eval_addr: "eval ev fns p t prev an h = (Inr a, h') \<Longrightarrow> a = prev_addr prev"
  by (auto simp: eval_def prev_addr_def Let_def split: if_splits dest: eval_loop_addr)

lemma eval_other_addr: "b \<noteq> prev_addr prev \<Longrightarrow> snd (eval ev fns p t prev an h) b = h b"
  by (auto simp: eval_def prev_addr_def Let_def eval_loop_other_addr)

lemma eval_acc:
  assumes "eval ev fns p t prev an h = (Inr a, h')" and "fn \<in> set (task_metrics (task ev))"
  shows "acc_total h' (prev_addr prev) fn = acc_total h (prev_addr prev) fn + stat_total fns fn p t"
    "acc_numel h' (prev_addr prev) fn = acc_numel h (prev_addr prev) fn + stat_numel fns fn p t"
proof -
  from assms(1) have l: "eval_loop ev fns (task_metrics (task ev)) p t an (prev_addr prev) h = (Inr a, h')"
    by (auto simp: eval_def prev_addr_def Let_def split: if_splits)
  have k: "take 9 fn \<noteq> ''atomwise_''" using task_metrics_plain assms(2) by blast
  from eval_loop_acc[OF l task_metrics_distinct task_metrics_plain k] assms(2)
  show "acc_total h' (prev_addr prev) fn = acc_total h (prev_addr prev) fn + stat_total fns fn p t"
    "acc_numel h' (prev_addr prev) fn = acc_numel h (prev_addr prev) fn + stat_numel fns fn p t"
    by simp_all
qed

lemma eval_calls_acc:
  assumes "eval_calls ev fns calls h = (Inr ms, h')" and "fn \<in> set (task_metrics (task ev))"
  shows "(\<forall>m \<in> set ms. m = default_prev_metrics) \<and> length ms = length calls
    \<and> acc_total h' default_prev_metrics fn =
        acc_total h default_prev_metrics fn + (\<Sum>(p, t, an)\<leftarrow>calls. stat_total fns fn p t)
    \<and> acc_numel h' default_prev_metrics fn =
        acc_numel h default_prev_metrics fn + (\<Sum>(p, t, an)\<leftarrow>calls. stat_numel fns fn p t)"
  using assms(1)
proof (induction calls arbitrary: h ms h')
  case Nil then show ?case by simp
next
  case (Cons c calls)
  obtain p t an where c: "c = (p, t, an)" by (cases c)
  obtain r1 h1 where e1: "eval ev fns p t None an h = (r1, h1)" by fastforce
  with Cons.prems c obtain m1 where r1: "r1 = Inr m1" by (cases r1) auto
  obtain r2 h2 where e2: "eval_calls ev fns calls h1 = (r2, h2)" by fastforce
  with Cons.prems c e1 r1 obtain ms' where r2: "r2 = Inr ms'" by (cases r2) auto
  have res: "ms = m1 # ms'" "h' = h2" using Cons.prems c e1 r1 e2 r2 by auto
  have m1: "m1 = default_prev_metrics" using eval_addr[OF e1[unfolded r1]] by (simp add: prev_addr_def)
  note a1 = eval_acc[OF e1[unfolded r1] assms(2), unfolded prev_addr_def, simplified]
  from Cons.IH[OF e2[unfolded r2]] a1 m1 res c show ?case by simp
qed






text \<open>
  Claim C10.  \<open>eval\<close> returns the address of the dictionary it was given (the default
  dictionary when the argument is omitted), changes no other dictionary, and adds to the
  total and count stored there under each metric name of the task.  Hence after any
  sequence of successful calls that omit \<open>prev_metrics\<close>, every call has returned the
  default dictionary, and the total and count it holds for a metric of the task are those
  it held before the first call plus the contributions of all calls of the sequence.
\<close>

theorem eval_shares_default_accumulators:
  "(eval ev fns p t prev an h = (r, h1) \<longrightarrow>
       (\<forall>a. r = Inr a \<longrightarrow> a = prev_addr prev)
     \<and> (\<forall>b. b \<noteq> prev_addr prev \<longrightarrow> h1 b = h b)
     \<and> (\<forall>a fn. r = Inr a \<and> fn \<in> set (task_metrics (task ev)) \<longrightarrow>
            acc_total h1 a fn = acc_total h a fn + stat_total fns fn p t
          \<and> acc_numel h1 a fn = acc_numel h a fn + stat_numel fns fn p t))
   \<and> (eval_calls ev fns calls h0 = (Inr ms, h2) \<and> fn0 \<in> set (task_metrics (task ev)) \<longrightarrow>
       (\<forall>m \<in> set ms. m = default_prev_metrics) \<and> length ms = length calls
     \<and> acc_total h2 default_prev_metrics fn0 =
         acc_total h0 default_prev_metrics fn0 + (\<Sum>(p, t, an)\<leftarrow>calls. stat_total fns fn0 p t)
     \<and> acc_numel h2 default_prev_metrics fn0 =
         acc_numel h0 default_prev_metrics fn0 + (\<Sum>(p, t, an)\<leftarrow>calls. stat_numel fns fn0 p t))"
proof (intro conjI impI allI)
  fix a assume "eval ev fns p t prev an h = (r, h1)" "r = Inr a"
  then show "a = prev_addr prev" using eval_addr by blast
next
  fix b assume "eval ev fns p t prev an h = (r, h1)" "b \<noteq> prev_addr prev"
  then show "h1 b = h b" using eval_other_addr[of b prev ev fns p t an h] by simp
next
  fix a fn assume e: "eval ev fns p t prev an h = (r, h1)"
    and "r = Inr a \<and> fn \<in> set (task_metrics (task ev))"
  then have r: "eval ev fns p t prev an h = (Inr a, h1)" and f: "fn \<in> set (task_metrics (task ev))"
    by simp_all
  have a: "a = prev_addr prev" using eval_addr[OF r] .
  show "acc_total h1 a fn = acc_total h a fn + stat_total fns fn p t"
    using eval_acc(1)[OF r f] a by simp
  show "acc_numel h1 a fn = acc_numel h a fn + stat_numel fns fn p t"
    using eval_acc(2)[OF r f] a by simp
next
  assume "eval_calls ev fns calls h0 = (Inr ms, h2) \<and> fn0 \<in> set (task_metrics (task ev))"
  then have c: "eval_calls ev fns calls h0 = (Inr ms, h2)" and f: "fn0 \<in> set (task_metrics (task ev))"
    by simp_all
  note r = eval_calls_acc[OF c f]
  show "\<forall>m \<in> set ms. m = default_prev_metrics" using r by blast
  show "length ms = length calls" using r by blast
  show "acc_total h2 default_prev_metrics fn0 =
         acc_total h0 default_prev_metrics fn0 + (\<Sum>(p, t, an)\<leftarrow>calls. stat_total fns fn0 p t)"
    using r by blast
  show "acc_numel h2 default_prev_metrics fn0 =
         acc_numel h0 default_prev_metrics fn0 + (\<Sum>(p, t, an)\<leftarrow>calls. stat_numel fns fn0 p t)"
    using r by blast
qed

lemma example_eval_first:
  "eval (evaluator_init IS2RE None None) (is2re_fns exact_reductions)
      [''energy'' \<mapsto> tensor1 [101 / 100, 203 / 100]] [''energy'' \<mapsto> tensor1 [1, 2]] None None (\<lambda>a. Map.empty)
   = (Inr 0, (\<lambda>a. Map.empty)(0 :=
        [''energy_mae'' \<mapsto> \<lparr> a_metric = Some 0.02, a_total = 0.04, a_numel = 2 \<rparr>,
         ''energy_mse'' \<mapsto> \<lparr> a_metric = Some 0.0005, a_total = 0.001, a_numel = 2 \<rparr>,
         ''energy_within_threshold'' \<mapsto> \<lparr> a_metric = Some 0.5, a_total = 1, a_numel = 2 \<rparr>]))"
  by (simp add: eval_def evaluator_init_def task_attributes_def task_metrics_def
      default_prev_metrics_def eval_metric_fn_def is2re_fns_def exact_reductions_def energy_mae_def
      energy_mse_def energy_within_threshold_def getkey_def absolute_error_def squared_error_def
      tsub_def tensor1_def tnumel_def size0_def update_def store_acc_def Let_def
      power2_eq_square fun_upd_twist)

lemma example_eval_second:
  "eval (evaluator_init IS2RE None None) (is2re_fns exact_reductions)
      [''energy'' \<mapsto> tensor1 [7 / 2]] [''energy'' \<mapsto> tensor1 [3]] None None
      ((\<lambda>a. Map.empty)(0 :=
        [''energy_mae'' \<mapsto> \<lparr> a_metric = Some 0.02, a_total = 0.04, a_numel = 2 \<rparr>,
         ''energy_mse'' \<mapsto> \<lparr> a_metric = Some 0.0005, a_total = 0.001, a_numel = 2 \<rparr>,
         ''energy_within_threshold'' \<mapsto> \<lparr> a_metric = Some 0.5, a_total = 1, a_numel = 2 \<rparr>]))
   = (Inr 0, (\<lambda>a. Map.empty)(0 :=
        [''energy_mae'' \<mapsto> \<lparr> a_metric = Some 0.18, a_total = 0.54, a_numel = 3 \<rparr>,
         ''energy_mse'' \<mapsto> \<lparr> a_metric = Some (0.251 / 3), a_total = 0.251, a_numel = 3 \<rparr>,
         ''energy_within_threshold'' \<mapsto> \<lparr> a_metric = Some (1 / 3), a_total = 1, a_numel = 3 \<rparr>]))"
  by (simp add: eval_def evaluator_init_def task_attributes_def task_metrics_def
      default_prev_metrics_def eval_metric_fn_def is2re_fns_def exact_reductions_def energy_mae_def
      energy_mse_def energy_within_threshold_def getkey_def absolute_error_def squared_error_def
      tsub_def tensor1_def tnumel_def size0_def update_def store_acc_def Let_def
      power2_eq_square fun_upd_twist)

lemma example_eval_calls:
  "eval_calls (evaluator_init IS2RE None None) (is2re_fns exact_reductions) example_calls (\<lambda>a. Map.empty)
     = (Inr [0, 0], example_store)"
  by (simp only: example_calls_def eval_calls.simps example_eval_first example_eval_second
      example_store_def prod.case sum.case)

text \<open>
  Claim C10 at two calls of the task \<open>is2re\<close> on an empty default dictionary: the second
  call alone contributes total 0.5 and count 1 to \<open>energy_mae\<close>, and the dictionary
  holds total 0.54 and count 3 after it.
\<close>

theorem eval_shares_default_accumulators_witness:
  "eval_calls (evaluator_init IS2RE None None) (is2re_fns exact_reductions) example_calls (\<lambda>a. Map.empty)
     = (Inr [0, 0], example_store)
   \<and> ''energy_mae'' \<in> set (task_metrics (task (evaluator_init IS2RE None None)))
   \<and> default_prev_metrics = 0
   \<and> stat_total (is2re_fns exact_reductions) ''energy_mae'' [''energy'' \<mapsto> tensor1 [7 / 2]] [''energy'' \<mapsto> tensor1 [3]] = 0.5
   \<and> stat_numel (is2re_fns exact_reductions) ''energy_mae'' [''energy'' \<mapsto> tensor1 [7 / 2]] [''energy'' \<mapsto> tensor1 [3]] = 1
   \<and> acc_total example_store default_prev_metrics ''energy_mae'' = 0.54
   \<and> acc_numel example_store default_prev_metrics ''energy_mae'' = 3"
proof -
  let ?ev = "evaluator_init IS2RE None None"
  have f: "''energy_mae'' \<in> set (task_metrics (task ?ev))"
    by (simp add: evaluator_init_def task_metrics_def)
  have s: "stat_total (is2re_fns exact_reductions) ''energy_mae'' [''energy'' \<mapsto> tensor1 [101 / 100, 203 / 100]] [''energy'' \<mapsto> tensor1 [1, 2]] = 0.04"
    "stat_total (is2re_fns exact_reductions) ''energy_mae'' [''energy'' \<mapsto> tensor1 [7 / 2]] [''energy'' \<mapsto> tensor1 [3]] = 0.5"
    "stat_numel (is2re_fns exact_reductions) ''energy_mae'' [''energy'' \<mapsto> tensor1 [101 / 100, 203 / 100]] [''energy'' \<mapsto> tensor1 [1, 2]] = 2"
    "stat_numel (is2re_fns exact_reductions) ''energy_mae'' [''energy'' \<mapsto> tensor1 [7 / 2]] [''energy'' \<mapsto> tensor1 [3]] = 1"
    by (simp_all add: stat_total_def stat_numel_def is2re_fns_def exact_reductions_def energy_mae_def
        getkey_def absolute_error_def tsub_def tensor1_def tnumel_def Let_def)
  have z: "acc_total (\<lambda>a. Map.empty) default_prev_metrics ''energy_mae'' = 0"
    "acc_numel (\<lambda>a. Map.empty) default_prev_metrics ''energy_mae'' = 0"
    by (simp_all add: acc_total_def acc_numel_def)
  from eval_shares_default_accumulators[of ?ev "is2re_fns exact_reductions"
      "[''energy'' \<mapsto> tensor1 [101 / 100, 203 / 100]]" "[''energy'' \<mapsto> tensor1 [1, 2]]" None None
      "\<lambda>a. Map.empty" "fst (eval ?ev (is2re_fns exact_reductions) [''energy'' \<mapsto> tensor1 [101 / 100, 203 / 100]]
          [''energy'' \<mapsto> tensor1 [1, 2]] None None (\<lambda>a. Map.empty))"
      "snd (eval ?ev (is2re_fns exact_reductions) [''energy'' \<mapsto> tensor1 [101 / 100, 203 / 100]]
          [''energy'' \<mapsto> tensor1 [1, 2]] None None (\<lambda>a. Map.empty))"
      example_calls "\<lambda>a. Map.empty" "[0, 0]" example_store "''energy_mae''"]
    example_eval_calls f
  have "acc_total example_store default_prev_metrics ''energy_mae'' =
          acc_total (\<lambda>a. Map.empty) default_prev_metrics ''energy_mae''
            + (\<Sum>(p, t, an)\<leftarrow>example_calls. stat_total (is2re_fns exact_reductions) ''energy_mae'' p t)"
       "acc_numel example_store default_prev_metrics ''energy_mae'' =
          acc_numel (\<lambda>a. Map.empty) default_prev_metrics ''energy_mae''
            + (\<Sum>(p, t, an)\<leftarrow>example_calls. stat_numel (is2re_fns exact_reductions) ''energy_mae'' p t)"
    by blast+
  then have "acc_total example_store default_prev_metrics ''energy_mae'' = 0.54"
    "acc_numel example_store default_prev_metrics ''energy_mae'' = 3"
    unfolding z by (simp_all add: example_calls_def s)
  with example_eval_calls f s show ?thesis by (simp add: default_prev_metrics_def)
qed

section \<open>Properties of the relaxation optimizer\<close>

lemma run_loop_done:
  "\<not> (iteration < steps \<and> \<not> converged) \<Longrightarrow>
     run_loop lb calc fmax steps trajs iteration converged cmask ef st = (None, ef, st)"
  by (subst run_loop.simps) auto

text \<open>
  Claim C2 (the code fails it).  With \<open>steps = 0\<close> the loop body never runs: no energy
  or force is evaluated, no position changes and nothing is attached to the batch, and
  \<open>run\<close> does not return: the local variable \<open>energy\<close> is unbound where it is attached
  to the batch, which raises UnboundLocalError (a TypeError earlier when a trajectory
  directory comes without names).
\<close>

theorem run_zero_steps_raises:
  "fst (run lb calc fmax 0 st) =
      (if traj_dir lb \<noteq> None \<and> traj_names lb = None then Raised TypeError
       else Raised UnboundLocalError)
   \<and> evaluations (opt (snd (run lb calc fmax 0 st))) = evaluations (opt st)
   \<and> pos (opt (snd (run lb calc fmax 0 st))) = pos (opt st)
   \<and> batch_energy (opt (snd (run lb calc fmax 0 st))) = batch_energy (opt st)
   \<and> batch_forces (opt (snd (run lb calc fmax 0 st))) = batch_forces (opt st)"
  by (auto simp: run_def run_loop_done Let_def split: option.splits)

lemma sqrt_1_10000: "sqrt (1 / 10000) = 1 / 100"
  by (rule real_sqrt_unique) (simp_all add: power2_eq_square)

lemmas tensor_defs = t_add_def t_sub_def t_neg_def t_scale_def t_rowmul_def fnorm_def fsum_def
  dim_size_def segment_def scatter_sum_def scatter_max_def gather_def fv_min_def fv_max_def
  fsub_def signed_inf_def

lemmas run_defs = run_def run_iteration_def check_convergence_def evaluate_def get_max_forces_def step_def
  get_positions_def determine_step_def abs_max_def set_positions_def opt_set_positions_def
  update_graph_def batched_dot_def write_traj_def deque_append_def Let_def

text \<open>
  Claim C1 (the code fails it).  In the two-atom batch the first system has zero force and
  is converged at iteration 0, the second is not.  The step of iteration 0 masks the new
  positions themselves, not the displacement, so the converged atom is moved from
  \<open>(1, 0, 0)\<close> to the origin, where the run of two steps returns it.
\<close>

theorem run_moves_converged_system:
  "fst (fst (check_convergence pull_second (1 / 20) two_atoms)) = [True, False]
   \<and> pos (opt (fresh_state two_atoms)) = [[Fin 1, Fin 0, Fin 0], [Fin 2, Fin 0, Fin 0]]
   \<and> run default_lbfgs pull_second (1 / 20) 2 (fresh_state two_atoms) =
     (Returned,
      \<lparr> opt = \<lparr> pos = [[Fin 0, Fin 0, Fin 0], [Fin (200252 / 100001), Fin 0, Fin 0]],
           batch_indices = [0, 1], natoms = [1, 1],
           batch_energy = Some [Fin 0, Fin 0],
           batch_forces = Some [[Fin 0, Fin 0, Fin 0], [Fin 1, Fin 0, Fin 0]],
           has_edge_index = True, evaluations = 2, graph_updates = 0 \<rparr>,
        s_hist = [], y_hist = [], rho_hist = [],
        r0 = Some [[Fin 1, Fin 0, Fin 0], [Fin 2, Fin 0, Fin 0]],
        f0 = Some [[Fin 0, Fin 0, Fin 0], [Fin 1, Fin 0, Fin 0]],
        events = [] \<rparr>)"
  by (simp add: run_defs default_lbfgs_def fresh_state_def two_atoms_def pull_second_def
      tensor_defs sqrt_1_10000 run_loop.simps)

lemma only_writes_append: "only_writes (a @ b) = (only_writes a \<and> only_writes b)"
  by (simp add: only_writes_def)

lemma write_loop_events:
  "\<exists>ws. snd (write_loop full zs ev) = ev @ ws \<and> only_writes ws"
proof (induction zs arbitrary: ev)
  case Nil then show ?case by (simp add: only_writes_def)
next
  case (Cons z zs)
  obtain name m where z: "z = (name, m)" by (cases z)
  show ?case
  proof (cases m)
    case Nil then show ?thesis by (simp add: z only_writes_def)
  next
    case (Cons m0 ms)
    from Cons.IH[of "if m0 \<or> \<not> full then ev @ [Write name] else ev"]
    obtain ws where ws: "snd (write_loop full zs (if m0 \<or> \<not> full then ev @ [Write name] else ev))
        = (if m0 \<or> \<not> full then ev @ [Write name] else ev) @ ws" "only_writes ws" by blast
    show ?thesis
    proof (cases "m0 \<or> \<not> full")
      case True
      then have "snd (write_loop full (z # zs) ev) = ev @ (Write name # ws)"
        using ws(1) z Cons by simp
      moreover have "only_writes (Write name # ws)" using ws(2) by (simp add: only_writes_def)
      ultimately show ?thesis by blast
    next
      case False
      then have "snd (write_loop full (z # zs) ev) = ev @ ws" using ws(1) z Cons by simp
      then show ?thesis using ws(2) by blast
    qed
  qed
qed

lemma write_traj_events:
  "\<exists>ws. events (snd (write_traj lb energy forces um trajs st)) = events st @ ws \<and> only_writes ws"
proof (cases "sum_list (natoms (opt st)) \<noteq> length um")
  case True
  then show ?thesis by (intro exI[of _ "[]"]) (simp add: write_traj_def only_writes_def)
next
  case False
  let ?zs = "zip (take (length (natoms (opt st))) trajs) (split_sizes um (natoms (opt st)))"
  from write_loop_events[of "save_full lb" ?zs "events st"]
  obtain ws where "snd (write_loop (save_full lb) ?zs (events st)) = events st @ ws" "only_writes ws"
    by blast
  then show ?thesis using False
    by (intro exI[of _ ws]) (auto simp: write_traj_def Let_def split: prod.splits)
qed

lemma step_events: "events (snd (step lb it forces um st)) = events st"
  by (simp add: step_def Let_def split: option.splits sum.splits prod.splits if_splits)

lemma run_iteration_events:
  "\<exists>ws. events (snd (snd (snd (snd (run_iteration lb calc fmax steps trajs it cmask st))))) = events st @ ws
        \<and> only_writes ws"
proof -
  obtain cm energy forces ob where cc: "check_convergence calc fmax (opt st) = ((cm, energy, forces), ob)"
    by (metis prod.exhaust)
  let ?st1 = "st\<lparr> opt := ob \<rparr>"
  let ?cmask = "map2 (\<or>) cmask cm"
  let ?um = "map Not ?cmask"
  let ?n = "length (pos ob)"
  let ?written = "(case trajs of
               Some trajs \<Rightarrow>
                 if save_full lb \<or> list_all id ?cmask \<or> it = steps - 1 \<or> it = 0
                 then write_traj lb energy (take ?n forces) (take ?n ?um) trajs ?st1
                 else (None, ?st1)
             | None \<Rightarrow> (None, ?st1))"
  obtain we st2 where w: "?written = (we, st2)" by (cases ?written)
  have "\<exists>ws. events (snd ?written) = events ?st1 @ ws \<and> only_writes ws"
    using write_traj_events[of lb energy "take ?n forces" "take ?n ?um" _ ?st1]
    by (auto simp: only_writes_def split: option.splits)
  then obtain ws1 where ws1: "events st2 = events st @ ws1" "only_writes ws1"
    unfolding w by auto
  let ?stepped = "(if \<not> list_all id ?cmask \<and> it < steps - 1
                     then step lb it forces ?um st2 else (None, st2))"
  obtain se st3 where s: "?stepped = (se, st3)" by (cases ?stepped)
  have e3: "events st3 = events st2"
    using s step_events[of lb it forces ?um st2] by (auto split: if_splits)
  have "run_iteration lb calc fmax steps trajs it cmask st =
      (case we of Some e \<Rightarrow> (Some e, list_all id ?cmask, ?cmask, (energy, forces), st2)
       | None \<Rightarrow> (se, list_all id ?cmask, ?cmask, (energy, forces), st3))"
    by (simp only: run_iteration_def cc Let_def prod.case w s)
  then show ?thesis using ws1 e3 by (auto split: option.splits)
qed

lemma run_loop_events:
  "\<exists>ws. events (snd (snd (run_loop lb calc fmax steps trajs it conv cmask ef st))) = events st @ ws
        \<and> only_writes ws"
proof (induction lb calc fmax steps trajs it conv cmask ef st rule: run_loop.induct)
  case (1 lb calc fmax steps trajectories iteration converged converged_mask ef st)
  show ?case
  proof (cases "iteration < steps \<and> \<not> converged")
    case False
    show ?thesis by (subst run_loop.simps, subst if_not_P[OF False]) (simp add: only_writes_def)
  next
    case True
    obtain e c' m' ef' st' where it:
      "run_iteration lb calc fmax steps trajectories iteration converged_mask st = (e, c', m', ef', st')"
      by (metis prod.exhaust)
    from run_iteration_events[of lb calc fmax steps trajectories iteration converged_mask st] it
    obtain ws1 where ws1: "events st' = events st @ ws1" "only_writes ws1" by auto
    show ?thesis
    proof (cases e)
      case (Some err)
      then have "run_loop lb calc fmax steps trajectories iteration converged converged_mask ef st
          = (Some err, Some ef', st')"
        by (subst run_loop.simps, subst if_P[OF True]) (simp add: it)
      then show ?thesis using ws1 by auto
    next
      case None
      then have u: "run_loop lb calc fmax steps trajectories iteration converged converged_mask ef st
          = run_loop lb calc fmax steps trajectories (iteration + 1) c' m' (Some ef') st'"
        by (subst run_loop.simps, subst if_P[OF True]) (simp add: it)
      from "1.IH"[OF True it[unfolded None, symmetric] refl refl refl refl]
      obtain ws2 where "events (snd (snd (run_loop lb calc fmax steps trajectories (iteration + 1) c' m'
          (Some ef') st'))) = events st' @ ws2" "only_writes ws2" by blast
      then show ?thesis using u ws1
        by (intro exI[of _ "ws1 @ ws2"]) (simp add: only_writes_append)
    qed
  qed
qed

lemma write_loop_error: "fst (write_loop full zs ev) \<noteq> Some UnboundLocalError"
proof (induction zs arbitrary: ev)
  case Nil then show ?case by simp
next
  case (Cons z zs)
  obtain name m where z: "z = (name, m)" by (cases z)
  show ?case using Cons.IH by (cases m) (simp_all add: z)
qed

lemma abs_max_error: "abs_max dr = Inl e \<Longrightarrow> e = RuntimeError"
  by (auto simp: abs_max_def split: list.splits)

lemma step_error: "fst (step lb it forces um st) \<noteq> Some UnboundLocalError"
  by (auto simp: step_def Let_def split: option.splits sum.splits prod.splits if_splits
      dest: abs_max_error)

lemma write_loop_error': "write_loop full zs ev = (e, ev') \<Longrightarrow> e \<noteq> Some UnboundLocalError"
  using write_loop_error[of full zs ev] by simp

lemma write_traj_error: "fst (write_traj lb energy forces um trajs st) \<noteq> Some UnboundLocalError"
  by (auto simp: write_traj_def Let_def split: prod.splits dest: write_loop_error')

lemma write_traj_error': "write_traj lb energy forces um trajs st = (e, st') \<Longrightarrow> e \<noteq> Some UnboundLocalError"
  using write_traj_error[of lb energy forces um trajs st] by simp

lemma step_error': "step lb it forces um st = (e, st') \<Longrightarrow> e \<noteq> Some UnboundLocalError"
  using step_error[of lb it forces um st] by simp

lemma run_iteration_error:
  "fst (run_iteration lb calc fmax steps trajs it cmask st) \<noteq> Some UnboundLocalError"
proof -
  obtain cm energy forces ob where cc: "check_convergence calc fmax (opt st) = ((cm, energy, forces), ob)"
    by (metis prod.exhaust)
  let ?st1 = "st\<lparr> opt := ob \<rparr>"
  let ?cmask = "map2 (\<or>) cmask cm"
  let ?um = "map Not ?cmask"
  let ?n = "length (pos ob)"
  let ?written = "(case trajs of
               Some trajs \<Rightarrow>
                 if save_full lb \<or> list_all id ?cmask \<or> it = steps - 1 \<or> it = 0
                 then write_traj lb energy (take ?n forces) (take ?n ?um) trajs ?st1
                 else (None, ?st1)
             | None \<Rightarrow> (None, ?st1))"
  obtain we st2 where w: "?written = (we, st2)" by (cases ?written)
  have we: "we \<noteq> Some UnboundLocalError"
    using w by (auto split: option.splits if_splits dest: write_traj_error')
  let ?stepped = "(if \<not> list_all id ?cmask \<and> it < steps - 1
                     then step lb it forces ?um st2 else (None, st2))"
  obtain se st3 where s: "?stepped = (se, st3)" by (cases ?stepped)
  have se: "se \<noteq> Some UnboundLocalError"
    using s by (auto split: if_splits dest: step_error')
  have "run_iteration lb calc fmax steps trajs it cmask st =
      (case we of Some e \<Rightarrow> (Some e, list_all id ?cmask, ?cmask, (energy, forces), st2)
       | None \<Rightarrow> (se, list_all id ?cmask, ?cmask, (energy, forces), st3))"
    by (simp only: run_iteration_def cc Let_def prod.case w s)
  then show ?thesis using we se by (auto split: option.splits)
qed

lemma run_loop_error:
  "fst (run_loop lb calc fmax steps trajs it conv cmask ef st) \<noteq> Some UnboundLocalError"
proof (induction lb calc fmax steps trajs it conv cmask ef st rule: run_loop.induct)
  case (1 lb calc fmax steps trajectories iteration converged converged_mask ef st)
  show ?case
  proof (cases "iteration < steps \<and> \<not> converged")
    case False
    show ?thesis by (subst run_loop.simps, subst if_not_P[OF False]) simp
  next
    case True
    obtain e c' m' ef' st' where it:
      "run_iteration lb calc fmax steps trajectories iteration converged_mask st = (e, c', m', ef', st')"
      by (metis prod.exhaust)
    have e: "e \<noteq> Some UnboundLocalError"
      using run_iteration_error[of lb calc fmax steps trajectories iteration converged_mask st] it
      by simp
    show ?thesis
    proof (cases e)
      case (Some err)
      then have "run_loop lb calc fmax steps trajectories iteration converged converged_mask ef st
          = (Some err, Some ef', st')"
        by (subst run_loop.simps, subst if_P[OF True]) (simp add: it)
      then show ?thesis using e Some by simp
    next
      case None
      then have u: "run_loop lb calc fmax steps trajectories iteration converged converged_mask ef st
          = run_loop lb calc fmax steps trajectories (iteration + 1) c' m' (Some ef') st'"
        by (subst run_loop.simps, subst if_P[OF True]) (simp add: it)
      from "1.IH"[OF True it[unfolded None, symmetric] refl refl refl refl] u
      show ?thesis by simp
    qed
  qed
qed

text \<open>
  The closing and renaming of the trajectory files are plain statements after the loop of
  \<open>run\<close>.  When a trajectory directory and names are given and the loop ends without an
  exception (so that \<open>run\<close> returns, or fails only when it attaches the energy after a loop
  that never ran), the file events of the run are: the directory made, one writer opened
  per name, frame writes only, every writer closed, and then every temporary file renamed.
\<close>

lemma run_closes_and_renames:
  "traj_dir lb = Some d \<and> traj_names lb = Some names
     \<and> (fst (run lb calc fmax steps st) = Returned
          \<or> fst (run lb calc fmax steps st) = Raised UnboundLocalError) \<longrightarrow>
   (\<exists>ws. events (snd (run lb calc fmax steps st)) =
            events st @ Mkdir d # map Open names @ ws @ map Close names @ map Rename names
        \<and> only_writes ws)"
proof
  assume A: "traj_dir lb = Some d \<and> traj_names lb = Some names
     \<and> (fst (run lb calc fmax steps st) = Returned
          \<or> fst (run lb calc fmax steps st) = Raised UnboundLocalError)"
  let ?st0 = "st\<lparr> s_hist := [], y_hist := [], rho_hist := [], r0 := None, f0 := None \<rparr>"
  let ?st1 = "?st0\<lparr> events := events ?st0 @ Mkdir d # map Open names \<rparr>"
  let ?loop = "run_loop lb calc fmax steps (Some names) 0 False
                     (replicate (length (batch_indices (opt ?st1))) False) None ?st1"
  obtain e ef st2 where l: "?loop = (e, ef, st2)" by (metis prod.exhaust)
  from run_loop_events[of lb calc fmax steps "Some names" 0 False
      "replicate (length (batch_indices (opt ?st1))) False" None ?st1]
  obtain ws where "events (snd (snd ?loop)) = events ?st1 @ ws" "only_writes ws" by blast
  then have ws: "events st2 = events ?st1 @ ws" "only_writes ws" using l by simp_all
  have ne: "e \<noteq> Some UnboundLocalError"
    using run_loop_error[of lb calc fmax steps "Some names" 0 False
      "replicate (length (batch_indices (opt ?st1))) False" None ?st1] l by simp
  have r: "run lb calc fmax steps st =
      (case e of Some err \<Rightarrow> (Raised err, st2)
       | None \<Rightarrow>
          let st3 = st2\<lparr> events := events st2 @ map Close names @ map Rename names \<rparr>
          in (case ef of None \<Rightarrow> (Raised UnboundLocalError, st3)
              | Some (energy, forces) \<Rightarrow>
                  (Returned, st3\<lparr> opt := (opt st3)\<lparr> batch_energy := Some energy,
                       batch_forces := Some (take (length (pos (opt st3))) forces) \<rparr> \<rparr>)))"
    using A by (simp only: run_def Let_def option.case sum.case prod.case l split: option.splits)
  have "e = None" using A ne unfolding r by (cases e) auto
  then have "events (snd (run lb calc fmax steps st)) =
      events st2 @ map Close names @ map Rename names"
    unfolding r by (auto simp: Let_def split: option.splits)
  then show "\<exists>ws. events (snd (run lb calc fmax steps st)) =
            events st @ Mkdir d # map Open names @ ws @ map Close names @ map Rename names
        \<and> only_writes ws"
    using ws by (intro exI[of _ ws]) simp
qed

text \<open>
  There is no \<open>try\<close> around the loop: when an exception leaves it, the file events of the
  run end with the frame writes, and no writer is closed and no file renamed.
\<close>

lemma run_raise_leaves_writers_open:
  "traj_dir lb = Some d \<and> traj_names lb = Some names
     \<and> fst (run lb calc fmax steps st) = Raised err \<and> err \<noteq> UnboundLocalError \<longrightarrow>
   (\<exists>ws. events (snd (run lb calc fmax steps st)) = events st @ Mkdir d # map Open names @ ws
        \<and> only_writes ws)"
proof
  assume A: "traj_dir lb = Some d \<and> traj_names lb = Some names
     \<and> fst (run lb calc fmax steps st) = Raised err \<and> err \<noteq> UnboundLocalError"
  let ?st0 = "st\<lparr> s_hist := [], y_hist := [], rho_hist := [], r0 := None, f0 := None \<rparr>"
  let ?st1 = "?st0\<lparr> events := events ?st0 @ Mkdir d # map Open names \<rparr>"
  let ?loop = "run_loop lb calc fmax steps (Some names) 0 False
                     (replicate (length (batch_indices (opt ?st1))) False) None ?st1"
  obtain e ef st2 where l: "?loop = (e, ef, st2)" by (metis prod.exhaust)
  from run_loop_events[of lb calc fmax steps "Some names" 0 False
      "replicate (length (batch_indices (opt ?st1))) False" None ?st1]
  obtain ws where "events (snd (snd ?loop)) = events ?st1 @ ws" "only_writes ws" by blast
  then have ws: "events st2 = events ?st1 @ ws" "only_writes ws" using l by simp_all
  have r: "run lb calc fmax steps st =
      (case e of Some err \<Rightarrow> (Raised err, st2)
       | None \<Rightarrow>
          let st3 = st2\<lparr> events := events st2 @ map Close names @ map Rename names \<rparr>
          in (case ef of None \<Rightarrow> (Raised UnboundLocalError, st3)
              | Some (energy, forces) \<Rightarrow>
                  (Returned, st3\<lparr> opt := (opt st3)\<lparr> batch_energy := Some energy,
                       batch_forces := Some (take (length (pos (opt st3))) forces) \<rparr> \<rparr>)))"
    using A by (simp only: run_def Let_def option.case sum.case prod.case l split: option.splits)
  have "e \<noteq> None" using A unfolding r by (auto simp: Let_def split: option.splits)
  then have "events (snd (run lb calc fmax steps st)) = events st2"
    unfolding r by (auto simp: Let_def split: option.splits)
  then show "\<exists>ws. events (snd (run lb calc fmax steps st)) =
            events st @ Mkdir d # map Open names @ ws \<and> only_writes ws"
    using ws by (intro exI[of _ ws]) simp
qed

lemma sqrt_small:
  "sqrt (1 / 10000000000) = 1 / 100000"
  "sqrt (1 / 100000000000000) = 1 / 10000000"
  by (rule real_sqrt_unique, simp add: power2_eq_square, simp)+

lemma run_traj_example:
  "run traj_lbfgs pull_second (1 / 20) 2 (fresh_state two_atoms) =
     (Returned,
      \<lparr> opt = \<lparr> pos = [[Fin 0, Fin 0, Fin 0], [Fin (200252 / 100001), Fin 0, Fin 0]],
           batch_indices = [0, 1], natoms = [1, 1],
           batch_energy = Some [Fin 0, Fin 0],
           batch_forces = Some [[Fin 0, Fin 0, Fin 0], [Fin 1, Fin 0, Fin 0]],
           has_edge_index = True, evaluations = 2, graph_updates = 0 \<rparr>,
        s_hist = [], y_hist = [], rho_hist = [],
        r0 = Some [[Fin 1, Fin 0, Fin 0], [Fin 2, Fin 0, Fin 0]],
        f0 = Some [[Fin 0, Fin 0, Fin 0], [Fin 1, Fin 0, Fin 0]],
        events = [Mkdir ''relax'', Open ''a'', Open ''b'', Write ''b'', Write ''b'',
                  Close ''a'', Close ''b'', Rename ''a'', Rename ''b''] \<rparr>)"
  by (simp add: run_defs traj_lbfgs_def default_lbfgs_def fresh_state_def two_atoms_def pull_second_def
      tensor_defs sqrt_1_10000 run_loop.simps)

text \<open>A run of two steps on the two-atom batch with two writers ends with both closed and renamed.\<close>

lemma run_closes_and_renames_example:
  "traj_dir traj_lbfgs = Some ''relax'' \<and> traj_names traj_lbfgs = Some [''a'', ''b'']
   \<and> fst (run traj_lbfgs pull_second (1 / 20) 2 (fresh_state two_atoms)) = Returned
   \<and> (\<exists>ws. events (snd (run traj_lbfgs pull_second (1 / 20) 2 (fresh_state two_atoms))) =
            events (fresh_state two_atoms) @ Mkdir ''relax'' # map Open [''a'', ''b''] @ ws
              @ map Close [''a'', ''b''] @ map Rename [''a'', ''b'']
        \<and> only_writes ws)"
proof -
  have h: "traj_dir traj_lbfgs = Some ''relax''" "traj_names traj_lbfgs = Some [''a'', ''b'']"
    by (simp_all add: traj_lbfgs_def)
  have r: "fst (run traj_lbfgs pull_second (1 / 20) 2 (fresh_state two_atoms)) = Returned"
    by (simp only: run_traj_example fst_conv)
  from run_closes_and_renames[of traj_lbfgs "''relax''" "[''a'', ''b'']" pull_second "1 / 20" 2
      "fresh_state two_atoms"] h r
  show ?thesis by blast
qed

text \<open>
  Claim C8 (the code fails it).  The optimizer has a trajectory directory and two names,
  the batch is the two-atom batch, the model's only force is \<open>1e-5\<close> on the second atom
  and \<open>fmax\<close> is \<open>1e-6\<close>.  The step of iteration 0 is degenerate (its largest entry
  \<open>1.25e-8\<close> is below \<open>1e-7\<close>): it returns without an error and without setting \<open>r0\<close>,
  leaving the state as it was.  The step of iteration 1 then raises TypeError on
  \<open>r - self.r0\<close>, and \<open>run\<close> ends there: both writers have been opened and one written
  to, none is closed and no temporary file is renamed.
\<close>

theorem run_degenerate_step_leaves_writers_open:
  "step traj_lbfgs 0 (snd (weak_pull 0 (pos two_atoms))) [False, True] (fresh_state two_atoms)
     = (None, fresh_state two_atoms)
   \<and> r0 (fresh_state two_atoms) = None
   \<and> fst (step traj_lbfgs 1 (snd (weak_pull 1 (pos two_atoms))) [False, True] (fresh_state two_atoms))
     = Some TypeError
   \<and> run traj_lbfgs weak_pull (1 / 1000000) 3 (fresh_state two_atoms) =
     (Raised TypeError,
      \<lparr> opt = \<lparr> pos = [[Fin 1, Fin 0, Fin 0], [Fin 2, Fin 0, Fin 0]],
           batch_indices = [0, 1], natoms = [1, 1],
           batch_energy = Some [Fin 0, Fin 0],
           batch_forces = Some [[Fin 0, Fin 0, Fin 0], [Fin (1 / 100000), Fin 0, Fin 0]],
           has_edge_index = True, evaluations = 2, graph_updates = 0 \<rparr>,
        s_hist = [], y_hist = [], rho_hist = [], r0 = None, f0 = None,
        events = [Mkdir ''relax'', Open ''a'', Open ''b'', Write ''b'', Write ''b''] \<rparr>)
   \<and> (\<forall>n. Close n \<notin> set (events (snd (run traj_lbfgs weak_pull (1 / 1000000) 3 (fresh_state two_atoms))))
          \<and> Rename n \<notin> set (events (snd (run traj_lbfgs weak_pull (1 / 1000000) 3 (fresh_state two_atoms)))))"
proof -
  have r: "run traj_lbfgs weak_pull (1 / 1000000) 3 (fresh_state two_atoms) =
     (Raised TypeError,
      \<lparr> opt = \<lparr> pos = [[Fin 1, Fin 0, Fin 0], [Fin 2, Fin 0, Fin 0]],
           batch_indices = [0, 1], natoms = [1, 1],
           batch_energy = Some [Fin 0, Fin 0],
           batch_forces = Some [[Fin 0, Fin 0, Fin 0], [Fin (1 / 100000), Fin 0, Fin 0]],
           has_edge_index = True, evaluations = 2, graph_updates = 0 \<rparr>,
        s_hist = [], y_hist = [], rho_hist = [], r0 = None, f0 = None,
        events = [Mkdir ''relax'', Open ''a'', Open ''b'', Write ''b'', Write ''b''] \<rparr>)"
    by (simp add: run_defs traj_lbfgs_def default_lbfgs_def fresh_state_def two_atoms_def weak_pull_def
        tensor_defs sqrt_small run_loop.simps)
  have s0: "step traj_lbfgs 0 (snd (weak_pull 0 (pos two_atoms))) [False, True] (fresh_state two_atoms)
     = (None, fresh_state two_atoms)"
    by (simp add: step_def get_positions_def determine_step_def abs_max_def traj_lbfgs_def
        default_lbfgs_def fresh_state_def two_atoms_def weak_pull_def tensor_defs sqrt_small Let_def)
  have s1: "fst (step traj_lbfgs 1 (snd (weak_pull 1 (pos two_atoms))) [False, True] (fresh_state two_atoms))
     = Some TypeError"
    by (simp add: step_def fresh_state_def Let_def)
  show ?thesis unfolding r using s0 s1 by (simp add: fresh_state_def)
qed

lemma last_deque_append: "0 < n \<Longrightarrow> last (deque_append n xs x) = x"
  by (simp add: deque_append_def)

lemma step_rho_hist:
  assumes "0 < iteration" "r0 st = Some r0v" "f0 st = Some f0v"
  shows "rho_hist (snd (step lb iteration forces um st)) =
     deque_append (memory lb) (rho_hist st)
       (map (fdiv (Fin 1))
          (batched_dot (batch_indices (opt st)) (t_neg (t_sub forces f0v))
             (t_sub (pos (opt st)) r0v)))"
  using assms
  by (simp add: step_def get_positions_def Let_def split: prod.splits sum.splits)

lemma step_s_hist:
  assumes "0 < iteration" "r0 st = Some r0v" "f0 st = Some f0v"
  shows "s_hist (snd (step lb iteration forces um st)) =
     deque_append (memory lb) (s_hist st) (t_sub (pos (opt st)) r0v)"
  using assms
  by (simp add: step_def get_positions_def Let_def split: prod.splits sum.splits)

lemma step_y_hist:
  assumes "0 < iteration" "r0 st = Some r0v" "f0 st = Some f0v"
  shows "y_hist (snd (step lb iteration forces um st)) =
     deque_append (memory lb) (y_hist st) (t_neg (t_sub forces f0v))"
  using assms
  by (simp add: step_def get_positions_def Let_def split: prod.splits sum.splits)

lemma length_deque_append: "length (deque_append n xs x) = min n (Suc (length xs))"
  by (simp add: deque_append_def)

lemma first_loop_length: "length (fst (first_loop idx s y rho n q)) = n"
proof (induction n arbitrary: q)
  case 0
  show ?case by simp
next
  case (Suc n)
  let ?q = "t_sub q (t_rowmul (gather (map2 fmul (rho ! n) (batched_dot idx (s ! n) q)) idx) (y ! n))"
  obtain a b where ab: "first_loop idx s y rho n ?q = (a, b)" by (cases "first_loop idx s y rho n ?q")
  from Suc[of ?q] ab have "length a = n" by simp
  then show ?case using ab by (simp add: Let_def)
qed

lemma first_loop_newest:
  "fst (first_loop idx s y rho (Suc i) q) ! i = map2 fmul (rho ! i) (batched_dot idx (s ! i) q)"
proof -
  let ?alpha = "map2 fmul (rho ! i) (batched_dot idx (s ! i) q)"
  let ?q = "t_sub q (t_rowmul (gather ?alpha idx) (y ! i))"
  have "fst (first_loop idx s y rho (Suc i) q) = fst (first_loop idx s y rho i ?q) @ [?alpha]"
    by (simp add: Let_def split: prod.splits)
  then show ?thesis
    using first_loop_length[of idx s y rho i ?q] by (simp add: nth_append)
qed

lemma fmul_PInf_not_finite: "\<not> is_finite (fmul PInf x)"
  by (cases x) (simp_all add: signed_inf_def)

lemma length_batched_dot: "length (batched_dot idx x y) = dim_size idx"
  by (simp add: batched_dot_def scatter_sum_def)

lemma step_reaches_loop:
  assumes "0 < iteration" "r0 st = Some r0v" "f0 st = Some f0v" "0 < memory lb"
    and "length (s_hist st) = min (memory lb) (nat iteration - 1)"
    and "length (y_hist st) = min (memory lb) (nat iteration - 1)"
    and "length (rho_hist st) = min (memory lb) (nat iteration - 1)"
  shows "fst (step lb iteration forces um st) \<noteq> Some TypeError"
    and "fst (step lb iteration forces um st) \<noteq> Some IndexError"
proof -
  have "min (memory lb) (nat iteration) \<le> min (memory lb) (Suc (min (memory lb) (nat iteration - 1)))"
    using assms(1) by (simp add: min_def)
  then have guard: "min (memory lb) (nat iteration) \<le> length (deque_append (memory lb) (s_hist st) a)"
    "min (memory lb) (nat iteration) \<le> length (deque_append (memory lb) (y_hist st) b)"
    "min (memory lb) (nat iteration) \<le> length (deque_append (memory lb) (rho_hist st) c)" for a b c
    by (simp_all only: length_deque_append assms(5-7))
  show "fst (step lb iteration forces um st) \<noteq> Some TypeError"
    using assms(1-3)
    by (auto simp: step_def Let_def guard split: prod.splits sum.splits dest: abs_max_error)
  show "fst (step lb iteration forces um st) \<noteq> Some IndexError"
    using assms(1-3)
    by (auto simp: step_def Let_def guard split: prod.splits sum.splits dest: abs_max_error)
qed

text \<open>
  Claim C3, amended.  In the history update of \<open>step\<close> the new \<open>rho\<close> is the plain
  quotient \<open>1 / dot(y0, s0)\<close> per system, with no replacement of a zero denominator: for a
  system whose segmented dot product is zero it is infinite, and for a nonzero finite dot
  product \<open>d\<close> it is \<open>1 / d\<close>.  The infinite value enters the two-loop recursion: when the
  history holds one entry per earlier step, as it does in \<open>run\<close>, the step passes its index
  check and raises no TypeError, the first loop runs over the updated history, and the
  coefficient \<open>alpha\<close> it computes first, for the newest entry, is \<open>rho * dot(s, q)\<close> with
  the new \<open>rho\<close>, which is not finite for any system whose dot product is zero.
\<close>

theorem step_rho_plain_division:
  "0 < iteration \<and> r0 st = Some r0v \<and> f0 st = Some f0v \<and> 0 < memory lb
     \<and> dots = batched_dot (batch_indices (opt st)) (t_neg (t_sub forces f0v))
                 (t_sub (pos (opt st)) r0v)
     \<and> rho = last (rho_hist (snd (step lb iteration forces um st))) \<longrightarrow>
   rho = map (fdiv (Fin 1)) dots
   \<and> (\<forall>k<length dots. dots ! k = Fin 0 \<longrightarrow> rho ! k = PInf \<and> \<not> is_finite (rho ! k))
   \<and> (\<forall>k<length dots. \<forall>d. dots ! k = Fin d \<and> d \<noteq> 0 \<longrightarrow> rho ! k = Fin (1 / d))
   \<and> (length (s_hist st) = min (memory lb) (nat iteration - 1)
        \<and> length (y_hist st) = min (memory lb) (nat iteration - 1)
        \<and> length (rho_hist st) = min (memory lb) (nat iteration - 1)
        \<and> loopmax = min (memory lb) (nat iteration)
        \<and> alphas = fst (first_loop (batch_indices (opt st))
                          (s_hist (snd (step lb iteration forces um st)))
                          (y_hist (snd (step lb iteration forces um st)))
                          (rho_hist (snd (step lb iteration forces um st)))
                          loopmax (t_neg forces)) \<longrightarrow>
      fst (step lb iteration forces um st) \<noteq> Some TypeError
      \<and> fst (step lb iteration forces um st) \<noteq> Some IndexError
      \<and> 0 < loopmax \<and> length alphas = loopmax
      \<and> alphas ! (loopmax - 1) =
          map2 fmul rho (batched_dot (batch_indices (opt st))
                           (last (s_hist (snd (step lb iteration forces um st)))) (t_neg forces))
      \<and> (\<forall>k<length dots. dots ! k = Fin 0 \<longrightarrow> \<not> is_finite (alphas ! (loopmax - 1) ! k)))"
proof
  let ?st' = "snd (step lb iteration forces um st)"
  let ?idx = "batch_indices (opt st)"
  assume A: "0 < iteration \<and> r0 st = Some r0v \<and> f0 st = Some f0v \<and> 0 < memory lb
     \<and> dots = batched_dot (batch_indices (opt st)) (t_neg (t_sub forces f0v))
                 (t_sub (pos (opt st)) r0v)
     \<and> rho = last (rho_hist (snd (step lb iteration forces um st)))"
  then have it: "0 < iteration" and r0: "r0 st = Some r0v" and f0: "f0 st = Some f0v"
    and mem: "0 < memory lb"
    and dots: "dots = batched_dot ?idx (t_neg (t_sub forces f0v)) (t_sub (pos (opt st)) r0v)"
    and rho_last: "rho = last (rho_hist ?st')"
    by blast+
  have rho: "rho = map (fdiv (Fin 1)) dots"
    using A step_rho_hist[of iteration st r0v f0v lb forces um] by (simp add: last_deque_append)
  have plain: "rho = map (fdiv (Fin 1)) dots
   \<and> (\<forall>k<length dots. dots ! k = Fin 0 \<longrightarrow> rho ! k = PInf \<and> \<not> is_finite (rho ! k))
   \<and> (\<forall>k<length dots. \<forall>d. dots ! k = Fin d \<and> d \<noteq> 0 \<longrightarrow> rho ! k = Fin (1 / d))"
    unfolding rho by (simp add: signed_inf_def)
  have loop: "fst (step lb iteration forces um st) \<noteq> Some TypeError
      \<and> fst (step lb iteration forces um st) \<noteq> Some IndexError
      \<and> 0 < loopmax \<and> length alphas = loopmax
      \<and> alphas ! (loopmax - 1) =
          map2 fmul rho (batched_dot ?idx (last (s_hist ?st')) (t_neg forces))
      \<and> (\<forall>k<length dots. dots ! k = Fin 0 \<longrightarrow> \<not> is_finite (alphas ! (loopmax - 1) ! k))"
    if B: "length (s_hist st) = min (memory lb) (nat iteration - 1)
        \<and> length (y_hist st) = min (memory lb) (nat iteration - 1)
        \<and> length (rho_hist st) = min (memory lb) (nat iteration - 1)
        \<and> loopmax = min (memory lb) (nat iteration)
        \<and> alphas = fst (first_loop ?idx (s_hist ?st') (y_hist ?st') (rho_hist ?st')
                          loopmax (t_neg forces))"
  proof -
    from B have ls: "length (s_hist st) = min (memory lb) (nat iteration - 1)"
      and ly: "length (y_hist st) = min (memory lb) (nat iteration - 1)"
      and lr: "length (rho_hist st) = min (memory lb) (nat iteration - 1)"
      and lm: "loopmax = min (memory lb) (nat iteration)"
      and al: "alphas = fst (first_loop ?idx (s_hist ?st') (y_hist ?st') (rho_hist ?st')
                          loopmax (t_neg forces))"
      by blast+
    have pos: "0 < loopmax" using it mem lm by simp
    then obtain i where i: "loopmax = Suc i" by (cases loopmax) simp_all
    have lr': "length (rho_hist ?st') = loopmax"
      using it mem lm lr
      by (simp add: step_rho_hist[OF it r0 f0] length_deque_append) linarith
    have ls': "length (s_hist ?st') = loopmax"
      using it mem lm ls
      by (simp add: step_s_hist[OF it r0 f0] length_deque_append) linarith
    have "rho_hist ?st' \<noteq> []" using lr' pos by auto
    then have rl: "rho_hist ?st' ! i = rho"
      using lr' i rho_last by (simp add: last_conv_nth)
    have "s_hist ?st' \<noteq> []" using ls' pos by auto
    then have sl: "s_hist ?st' ! i = last (s_hist ?st')"
      using ls' i by (simp add: last_conv_nth)
    have len: "length alphas = loopmax" unfolding al by (rule first_loop_length)
    have newest: "alphas ! (loopmax - 1) =
          map2 fmul rho (batched_dot ?idx (last (s_hist ?st')) (t_neg forces))"
      unfolding al i using first_loop_newest[of ?idx "s_hist ?st'" "y_hist ?st'" "rho_hist ?st'" i
          "t_neg forces"]
      by (simp add: rl sl)
    have inf: "\<not> is_finite (alphas ! (loopmax - 1) ! k)" if k: "k < length dots" "dots ! k = Fin 0" for k
    proof -
      have kr: "k < length rho" using k rho by simp
      have kd: "k < length (batched_dot ?idx (last (s_hist ?st')) (t_neg forces))"
        using k dots by (simp add: length_batched_dot)
      have "rho ! k = PInf" using plain k by blast
      then show ?thesis unfolding newest using kr kd by (simp add: fmul_PInf_not_finite)
    qed
    show ?thesis
      using step_reaches_loop[OF it r0 f0 mem ls ly lr, of forces um] pos len newest inf by blast
  qed
  show "rho = map (fdiv (Fin 1)) dots
   \<and> (\<forall>k<length dots. dots ! k = Fin 0 \<longrightarrow> rho ! k = PInf \<and> \<not> is_finite (rho ! k))
   \<and> (\<forall>k<length dots. \<forall>d. dots ! k = Fin d \<and> d \<noteq> 0 \<longrightarrow> rho ! k = Fin (1 / d))
   \<and> (length (s_hist st) = min (memory lb) (nat iteration - 1)
        \<and> length (y_hist st) = min (memory lb) (nat iteration - 1)
        \<and> length (rho_hist st) = min (memory lb) (nat iteration - 1)
        \<and> loopmax = min (memory lb) (nat iteration)
        \<and> alphas = fst (first_loop (batch_indices (opt st))
                          (s_hist (snd (step lb iteration forces um st)))
                          (y_hist (snd (step lb iteration forces um st)))
                          (rho_hist (snd (step lb iteration forces um st)))
                          loopmax (t_neg forces)) \<longrightarrow>
      fst (step lb iteration forces um st) \<noteq> Some TypeError
      \<and> fst (step lb iteration forces um st) \<noteq> Some IndexError
      \<and> 0 < loopmax \<and> length alphas = loopmax
      \<and> alphas ! (loopmax - 1) =
          map2 fmul rho (batched_dot (batch_indices (opt st))
                           (last (s_hist (snd (step lb iteration forces um st)))) (t_neg forces))
      \<and> (\<forall>k<length dots. dots ! k = Fin 0 \<longrightarrow> \<not> is_finite (alphas ! (loopmax - 1) ! k)))"
    using plain loop by blast
qed

lemma sqrt_1_160000: "sqrt (1 / 160000) = 1 / 400"
  by (rule real_sqrt_unique) (simp_all add: power2_eq_square)

lemma moved_dots:
  "batched_dot (batch_indices (opt moved_state))
      (t_neg (t_sub halved_forces [[Fin 0, Fin 0, Fin 0], [Fin 1, Fin 0, Fin 0]]))
      (t_sub (pos (opt moved_state)) [[Fin 1, Fin 0, Fin 0], [Fin 2, Fin 0, Fin 0]])
     = [Fin 0, Fin (1 / 800)]"
  by (simp add: moved_state_def two_atoms_def halved_forces_def batched_dot_def tensor_defs)

text \<open>
  Claim C3, amended, at a state where the first system has not moved: its \<open>rho\<close> is
  infinite and its first coefficient of the two-loop recursion is NaN.
\<close>

theorem step_rho_plain_division_witness:
  "(0::int) < 1 \<and> r0 moved_state = Some [[Fin 1, Fin 0, Fin 0], [Fin 2, Fin 0, Fin 0]]
   \<and> f0 moved_state = Some [[Fin 0, Fin 0, Fin 0], [Fin 1, Fin 0, Fin 0]]
   \<and> 0 < memory default_lbfgs
   \<and> length (s_hist moved_state) = min (memory default_lbfgs) (nat 1 - 1)
   \<and> length (y_hist moved_state) = min (memory default_lbfgs) (nat 1 - 1)
   \<and> length (rho_hist moved_state) = min (memory default_lbfgs) (nat 1 - 1)
   \<and> min (memory default_lbfgs) (nat 1) = 1
   \<and> last (rho_hist (snd (step default_lbfgs 1 halved_forces [False, True] moved_state)))
        = map (fdiv (Fin 1)) [Fin 0, Fin (1 / 800)]
   \<and> last (rho_hist (snd (step default_lbfgs 1 halved_forces [False, True] moved_state))) ! 0 = PInf
   \<and> last (rho_hist (snd (step default_lbfgs 1 halved_forces [False, True] moved_state))) ! 1 = Fin 800
   \<and> fst (step default_lbfgs 1 halved_forces [False, True] moved_state) \<noteq> Some TypeError
   \<and> fst (step default_lbfgs 1 halved_forces [False, True] moved_state) \<noteq> Some IndexError
   \<and> \<not> is_finite (fst (first_loop (batch_indices (opt moved_state))
          (s_hist (snd (step default_lbfgs 1 halved_forces [False, True] moved_state)))
          (y_hist (snd (step default_lbfgs 1 halved_forces [False, True] moved_state)))
          (rho_hist (snd (step default_lbfgs 1 halved_forces [False, True] moved_state)))
          1 (t_neg halved_forces)) ! 0 ! 0)
   \<and> fst (first_loop (batch_indices (opt moved_state))
          (s_hist (snd (step default_lbfgs 1 halved_forces [False, True] moved_state)))
          (y_hist (snd (step default_lbfgs 1 halved_forces [False, True] moved_state)))
          (rho_hist (snd (step default_lbfgs 1 halved_forces [False, True] moved_state)))
          1 (t_neg halved_forces)) = [[NaN, Fin (- 1)]]"
proof -
  let ?st' = "snd (step default_lbfgs 1 halved_forces [False, True] moved_state)"
  let ?alphas = "fst (first_loop (batch_indices (opt moved_state)) (s_hist ?st') (y_hist ?st')
          (rho_hist ?st') 1 (t_neg halved_forces))"
  have h: "(0::int) < 1" "r0 moved_state = Some [[Fin 1, Fin 0, Fin 0], [Fin 2, Fin 0, Fin 0]]"
    "f0 moved_state = Some [[Fin 0, Fin 0, Fin 0], [Fin 1, Fin 0, Fin 0]]"
    "0 < memory default_lbfgs"
    by (simp_all add: moved_state_def default_lbfgs_def)
  have g: "length (s_hist moved_state) = min (memory default_lbfgs) (nat 1 - 1)"
    "length (y_hist moved_state) = min (memory default_lbfgs) (nat 1 - 1)"
    "length (rho_hist moved_state) = min (memory default_lbfgs) (nat 1 - 1)"
    "min (memory default_lbfgs) (nat 1) = 1"
    by (simp_all add: moved_state_def default_lbfgs_def)
  have a: "?alphas = [[NaN, Fin (- 1)]]"
    unfolding step_s_hist[OF h(1-3)] step_y_hist[OF h(1-3)] step_rho_hist[OF h(1-3)]
    by (simp add: moved_state_def default_lbfgs_def two_atoms_def halved_forces_def batched_dot_def
        deque_append_def tensor_defs Let_def)
  note w = step_rho_plain_division[where iteration = 1 and st = moved_state
      and ?r0v = "[[Fin 1, Fin 0, Fin 0], [Fin 2, Fin 0, Fin 0]]"
      and ?f0v = "[[Fin 0, Fin 0, Fin 0], [Fin 1, Fin 0, Fin 0]]" and lb = default_lbfgs
      and dots = "[Fin 0, Fin (1 / 800)]" and forces = halved_forces
      and rho = "last (rho_hist ?st')" and um = "[False, True]" and loopmax = 1
      and alphas = ?alphas]
  have A: "(0::int) < 1 \<and> r0 moved_state = Some [[Fin 1, Fin 0, Fin 0], [Fin 2, Fin 0, Fin 0]]
     \<and> f0 moved_state = Some [[Fin 0, Fin 0, Fin 0], [Fin 1, Fin 0, Fin 0]]
     \<and> 0 < memory default_lbfgs
     \<and> [Fin 0, Fin (1 / 800)] = batched_dot (batch_indices (opt moved_state))
           (t_neg (t_sub halved_forces [[Fin 0, Fin 0, Fin 0], [Fin 1, Fin 0, Fin 0]]))
           (t_sub (pos (opt moved_state)) [[Fin 1, Fin 0, Fin 0], [Fin 2, Fin 0, Fin 0]])
     \<and> last (rho_hist ?st') = last (rho_hist ?st')"
    using h moved_dots by (simp only: simp_thms)
  have B: "length (s_hist moved_state) = min (memory default_lbfgs) (nat 1 - 1)
     \<and> length (y_hist moved_state) = min (memory default_lbfgs) (nat 1 - 1)
     \<and> length (rho_hist moved_state) = min (memory default_lbfgs) (nat 1 - 1)
     \<and> 1 = min (memory default_lbfgs) (nat 1)
     \<and> ?alphas = ?alphas"
    using g by (simp only: simp_thms)
  from w A B
  have c: "last (rho_hist ?st') = map (fdiv (Fin 1)) [Fin 0, Fin (1 / 800)]"
    and e: "fst (step default_lbfgs 1 halved_forces [False, True] moved_state) \<noteq> Some TypeError"
      "fst (step default_lbfgs 1 halved_forces [False, True] moved_state) \<noteq> Some IndexError"
    and n0: "\<forall>k<length [Fin 0, Fin (1 / 800) :: fval]. [Fin 0, Fin (1 / 800)] ! k = Fin 0 \<longrightarrow>
               \<not> is_finite (?alphas ! (1 - 1) ! k)"
    by blast+
  from n0 have n: "\<not> is_finite (?alphas ! 0 ! 0)" by simp
  from c have c': "last (rho_hist ?st') ! 0 = PInf" "last (rho_hist ?st') ! 1 = Fin 800"
    by (simp_all add: signed_inf_def)
  show ?thesis using h g c c' e n a by blast
qed

text \<open>
  Claim C3 as stated fails where a system has not moved since the last step: its dot
  product is zero, its \<open>rho\<close> is stored as infinity, not as the quotient by 1, and the
  two-loop recursion turns it into NaN positions for that system when it is still updated.
  So it is in \<open>run\<close>: with a model whose forces do not change, the dot products of
  iteration 1 are zero, both \<open>rho\<close> are infinite, and a run of three steps returns the
  system that is still updated at NaN positions.
\<close>

theorem step_rho_infinite_counterexample:
  "batched_dot (batch_indices (opt moved_state))
      (t_neg (t_sub halved_forces [[Fin 0, Fin 0, Fin 0], [Fin 1, Fin 0, Fin 0]]))
      (t_sub (pos (opt moved_state)) [[Fin 1, Fin 0, Fin 0], [Fin 2, Fin 0, Fin 0]])
     = [Fin 0, Fin (1 / 800)]
   \<and> rho_hist (snd (step default_lbfgs 1 halved_forces [True, True] moved_state)) = [[PInf, Fin 800]]
   \<and> pos (opt (snd (step default_lbfgs 1 halved_forces [True, True] moved_state))) ! 0 = [NaN, NaN, NaN]
   \<and> fst (run default_lbfgs pull_second (1 / 20) 3 (fresh_state two_atoms)) = Returned
   \<and> rho_hist (snd (run default_lbfgs pull_second (1 / 20) 3 (fresh_state two_atoms))) = [[PInf, PInf]]
   \<and> pos (opt (snd (run default_lbfgs pull_second (1 / 20) 3 (fresh_state two_atoms)))) ! 1
       = [NaN, NaN, NaN]"
proof -
  have s: "batched_dot (batch_indices (opt moved_state))
      (t_neg (t_sub halved_forces [[Fin 0, Fin 0, Fin 0], [Fin 1, Fin 0, Fin 0]]))
      (t_sub (pos (opt moved_state)) [[Fin 1, Fin 0, Fin 0], [Fin 2, Fin 0, Fin 0]])
     = [Fin 0, Fin (1 / 800)]
   \<and> rho_hist (snd (step default_lbfgs 1 halved_forces [True, True] moved_state)) = [[PInf, Fin 800]]
   \<and> pos (opt (snd (step default_lbfgs 1 halved_forces [True, True] moved_state))) ! 0 = [NaN, NaN, NaN]"
    by (simp add: step_def moved_state_def default_lbfgs_def two_atoms_def halved_forces_def
        get_positions_def determine_step_def
        abs_max_def set_positions_def opt_set_positions_def batched_dot_def tensor_defs sqrt_1_160000 Let_def
        deque_append_def)
  have r: "fst (run default_lbfgs pull_second (1 / 20) 3 (fresh_state two_atoms)) = Returned
   \<and> rho_hist (snd (run default_lbfgs pull_second (1 / 20) 3 (fresh_state two_atoms))) = [[PInf, PInf]]
   \<and> pos (opt (snd (run default_lbfgs pull_second (1 / 20) 3 (fresh_state two_atoms)))) ! 1
       = [NaN, NaN, NaN]"
    by (simp add: run_defs default_lbfgs_def fresh_state_def two_atoms_def pull_second_def
        tensor_defs sqrt_1_10000 run_loop.simps)
  from s r show ?thesis by blast
qed

lemma foldl_fadd_Fin: "foldl fadd (Fin a) (map Fin xs) = Fin (a + sum_list xs)"
  by (induction xs arbitrary: a) (simp_all add: add.assoc)

lemma fsum_Fin: "fsum (map Fin xs) = Fin (sum_list xs)"
  by (simp add: fsum_def foldl_fadd_Fin)

lemma sum_squares_nonneg: "0 \<le> sum_list (map (\<lambda>x. x * x) (v :: real list))"
  by (rule sum_list_nonneg) auto

lemma fnorm_Fin: "fnorm (map Fin v) = Fin (vnorm v)"
proof -
  have "map (\<lambda>x. fmul x x) (map Fin v) = map Fin (map (\<lambda>x. x * x) v)" by simp
  then show ?thesis
    using sum_squares_nonneg[of v] by (simp add: fnorm_def fsum_Fin vnorm_def not_less[symmetric] del: map_map)
qed

lemma vnorm_nonneg: "0 \<le> vnorm v"
  by (simp add: vnorm_def sum_squares_nonneg)

lemma vnorm_scale: "0 \<le> c \<Longrightarrow> vnorm (map (\<lambda>x. c * x) v) = c * vnorm v"
proof -
  assume c: "0 \<le> c"
  have "sum_list (map (\<lambda>x. (c * x) * (c * x)) v) = (c * c) * sum_list (map (\<lambda>x. x * x) v)"
    by (induction v) (simp_all add: algebra_simps)
  then show ?thesis using c
    by (simp add: vnorm_def comp_def real_sqrt_mult)
qed

lemma fv_max_Fin: "fv_max (Fin a) (Fin b) = Fin (max a b)"
  by (simp add: fv_max_def max_def)

lemma fv_min_Fin: "fv_min (Fin a) (Fin b) = Fin (min a b)"
  by (simp add: fv_min_def min_def)

lemmas segment_defs = t_add_def t_sub_def t_neg_def t_scale_def t_rowmul_def
  dim_size_def segment_def scatter_sum_def scatter_max_def gather_def

lemma max_vnorm_eps: "max (max (vnorm b0) (vnorm b1)) (vnorm b2) + 1 / 10000000 \<noteq> 0"
  "max (vnorm a0) (vnorm a1) + 1 / 10000000 \<noteq> 0"
  using vnorm_nonneg[of b0] vnorm_nonneg[of a0] by (simp_all add: max_def)

lemma determine_step_tail:
  "drop 2 (determine_step lb [0, 0, 1, 1, 1] (p0 # p1 # map (map Fin) [b0, b1, b2])) =
     map (\<lambda>b. map (\<lambda>x. Fin (damping lb *
            (min (max (max (vnorm b0) (vnorm b1)) (vnorm b2)) (maxstep lb)
               / (max (max (vnorm b0) (vnorm b1)) (vnorm b2) + 1 / 10 ^ 7) * x))) b)
       [b0, b1, b2]"
  using max_vnorm_eps(1)[of b0 b1 b2]
  by (simp add: determine_step_def segment_defs fnorm_Fin fv_max_Fin fv_min_Fin Let_def)

lemma determine_step_head:
  "take 2 (determine_step lb [0, 0, 1, 1, 1] (map (map Fin) [a0, a1, b0, b1, b2])) =
     map (\<lambda>a. map Fin (map (\<lambda>x. (damping lb *
            (min (max (vnorm a0) (vnorm a1)) (maxstep lb)
               / (max (vnorm a0) (vnorm a1) + 1 / 10 ^ 7))) * x) a))
       [a0, a1]"
  using max_vnorm_eps(2)[of a0 a1]
  by (simp add: determine_step_def segment_defs fnorm_Fin fv_max_Fin fv_min_Fin Let_def
      mult.assoc)

lemma nth_take2: "take 2 xs = [u, v] \<Longrightarrow> xs ! 0 = u \<and> xs ! 1 = v"
  by (cases xs; cases "tl xs") (auto simp: numeral_2_eq_2)

text \<open>
  Claim C6.  In a batch of two systems with 2 and 3 atoms whose proposed displacement
  exceeds \<open>maxstep\<close> in system 0 only (\<open>L0\<close> and \<open>L1\<close> the longest displacements of the two
  systems), the largest displacement of system 0 after \<open>_determine_step\<close> is
  \<open>maxstep * damping * L0 / (L0 + 1e-7)\<close>, within \<open>damping * 1e-7\<close> of \<open>maxstep * damping\<close>;
  the displacements of system 1 are its own proposed ones times \<open>damping * L1 / (L1 + 1e-7)\<close>,
  and they are the same whatever the rows of system 0 are.
\<close>

theorem determine_step_clamps_per_system:
  "0 < maxstep lb \<and> 0 < damping lb
     \<and> L0 = max (vnorm a0) (vnorm a1)
     \<and> L1 = max (max (vnorm b0) (vnorm b1)) (vnorm b2)
     \<and> maxstep lb < L0 \<and> L1 \<le> maxstep lb
     \<and> out = determine_step lb [0, 0, 1, 1, 1] (map (map Fin) [a0, a1, b0, b1, b2]) \<longrightarrow>
   (\<exists>m0. fv_max (fnorm (out ! 0)) (fnorm (out ! 1)) = Fin m0
        \<and> m0 = maxstep lb * damping lb * (L0 / (L0 + 1 / 10 ^ 7))
        \<and> \<bar>m0 - maxstep lb * damping lb\<bar> < damping lb / 10 ^ 7)
   \<and> drop 2 out =
        map (\<lambda>b. map (\<lambda>x. Fin (damping lb * (L1 / (L1 + 1 / 10 ^ 7) * x))) b) [b0, b1, b2]
   \<and> (\<forall>p0 p1. drop 2 (determine_step lb [0, 0, 1, 1, 1] (p0 # p1 # map (map Fin) [b0, b1, b2]))
                = drop 2 out)"
proof
  assume A: "0 < maxstep lb \<and> 0 < damping lb
     \<and> L0 = max (vnorm a0) (vnorm a1)
     \<and> L1 = max (max (vnorm b0) (vnorm b1)) (vnorm b2)
     \<and> maxstep lb < L0 \<and> L1 \<le> maxstep lb
     \<and> out = determine_step lb [0, 0, 1, 1, 1] (map (map Fin) [a0, a1, b0, b1, b2])"
  define e :: real where "e = 1 / 10 ^ 7"
  have e: "0 < e" by (simp add: e_def)
  from A have ms: "0 < maxstep lb" and d: "0 < damping lb"
    and L0: "L0 = max (vnorm a0) (vnorm a1)"
    and L1: "L1 = max (max (vnorm b0) (vnorm b1)) (vnorm b2)"
    and big: "maxstep lb < L0" and small: "L1 \<le> maxstep lb"
    and out: "out = determine_step lb [0, 0, 1, 1, 1] (map (map Fin) [a0, a1, b0, b1, b2])"
    by blast+
  define c0 where "c0 = damping lb * (maxstep lb / (L0 + e))"
  have c0: "0 \<le> c0" using ms d big e by (simp add: c0_def)
  have min0: "min L0 (maxstep lb) = maxstep lb" using big by simp
  have min1: "min L1 (maxstep lb) = L1" using small by simp
  have head: "take 2 out = [map Fin (map (\<lambda>x. c0 * x) a0), map Fin (map (\<lambda>x. c0 * x) a1)]"
    unfolding out determine_step_head using min0 by (simp add: L0 c0_def e_def)
  from nth_take2[OF head]
  have o0: "out ! 0 = map Fin (map (\<lambda>x. c0 * x) a0)" and o1: "out ! 1 = map Fin (map (\<lambda>x. c0 * x) a1)"
    by simp_all
  have n0: "fnorm (out ! 0) = Fin (c0 * vnorm a0)"
    by (simp only: o0 fnorm_Fin vnorm_scale[OF c0])
  have n1: "fnorm (out ! 1) = Fin (c0 * vnorm a1)"
    by (simp only: o1 fnorm_Fin vnorm_scale[OF c0])
  have "max (c0 * vnorm a0) (c0 * vnorm a1) = c0 * L0"
    unfolding L0 using c0 by (simp add: max_mult_distrib_left)
  then have m: "fv_max (fnorm (out ! 0)) (fnorm (out ! 1)) = Fin (c0 * L0)"
    by (simp only: n0 n1 fv_max_Fin)
  have val: "c0 * L0 = maxstep lb * damping lb * (L0 / (L0 + e))"
    by (simp add: c0_def)
  have pos: "0 < L0 + e" using ms big e by linarith
  define t where "t = maxstep lb * e / (L0 + e)"
  have diff: "maxstep lb * damping lb - c0 * L0 = damping lb * t"
    using pos by (simp add: c0_def t_def field_simps)
  have t_lt: "t < e"
  proof -
    have "maxstep lb * e < (L0 + e) * e" using big e by (simp add: mult_strict_right_mono)
    then show ?thesis using pos by (simp add: t_def field_simps)
  qed
  have t_ge: "0 \<le> t" using ms e pos by (simp add: t_def)
  have "damping lb * t < damping lb * e" using d t_lt by (rule mult_strict_left_mono[rotated])
  moreover have "0 \<le> damping lb * t" using d t_ge by simp
  ultimately have close: "\<bar>c0 * L0 - maxstep lb * damping lb\<bar> < damping lb * e"
    using diff by linarith
  have tail: "drop 2 (determine_step lb [0, 0, 1, 1, 1] (p0 # p1 # map (map Fin) [b0, b1, b2])) =
        map (\<lambda>b. map (\<lambda>x. Fin (damping lb * (L1 / (L1 + 1 / 10 ^ 7) * x))) b) [b0, b1, b2]"
    for p0 p1
    unfolding determine_step_tail using min1 by (simp add: L1)
  have tail_out: "drop 2 out =
        map (\<lambda>b. map (\<lambda>x. Fin (damping lb * (L1 / (L1 + 1 / 10 ^ 7) * x))) b) [b0, b1, b2]"
    unfolding out using tail[of "map Fin a0" "map Fin a1"] by simp
  show "(\<exists>m0. fv_max (fnorm (out ! 0)) (fnorm (out ! 1)) = Fin m0
        \<and> m0 = maxstep lb * damping lb * (L0 / (L0 + 1 / 10 ^ 7))
        \<and> \<bar>m0 - maxstep lb * damping lb\<bar> < damping lb / 10 ^ 7)
   \<and> drop 2 out =
        map (\<lambda>b. map (\<lambda>x. Fin (damping lb * (L1 / (L1 + 1 / 10 ^ 7) * x))) b) [b0, b1, b2]
   \<and> (\<forall>p0 p1. drop 2 (determine_step lb [0, 0, 1, 1, 1] (p0 # p1 # map (map Fin) [b0, b1, b2]))
                = drop 2 out)"
  proof (intro conjI allI)
    show "\<exists>m0. fv_max (fnorm (out ! 0)) (fnorm (out ! 1)) = Fin m0
        \<and> m0 = maxstep lb * damping lb * (L0 / (L0 + 1 / 10 ^ 7))
        \<and> \<bar>m0 - maxstep lb * damping lb\<bar> < damping lb / 10 ^ 7"
      using m val close by (intro exI[of _ "c0 * L0"]) (simp add: e_def)
    show "drop 2 out =
        map (\<lambda>b. map (\<lambda>x. Fin (damping lb * (L1 / (L1 + 1 / 10 ^ 7) * x))) b) [b0, b1, b2]"
      by (rule tail_out)
    show "drop 2 (determine_step lb [0, 0, 1, 1, 1] (p0 # p1 # map (map Fin) [b0, b1, b2])) = drop 2 out"
      for p0 p1
      unfolding tail_out by (rule tail)
  qed
qed

lemma vnorm_axis: "vnorm [x, 0, 0] = \<bar>x\<bar>"
  by (simp add: vnorm_def)

text \<open>
  Claim C6 with \<open>maxstep = 0.01\<close> and \<open>damping = 0.25\<close>: system 0 proposes a longest step
  of 0.03, system 1 of 0.001.
\<close>

theorem determine_step_clamps_per_system_witness:
  "0 < maxstep default_lbfgs \<and> 0 < damping default_lbfgs
   \<and> max (vnorm [3 / 100, 0, 0]) (vnorm [0, 0, 0]) = 3 / 100
   \<and> max (max (vnorm [1 / 1000, 0, 0]) (vnorm [0, 0, 0])) (vnorm [1 / 2000, 0, 0]) = 1 / 1000
   \<and> maxstep default_lbfgs < 3 / 100 \<and> 1 / 1000 \<le> maxstep default_lbfgs
   \<and> (\<exists>m0. fv_max
          (fnorm (determine_step default_lbfgs [0, 0, 1, 1, 1]
             (map (map Fin) [[3 / 100, 0, 0], [0, 0, 0], [1 / 1000, 0, 0], [0, 0, 0], [1 / 2000, 0, 0]]) ! 0))
          (fnorm (determine_step default_lbfgs [0, 0, 1, 1, 1]
             (map (map Fin) [[3 / 100, 0, 0], [0, 0, 0], [1 / 1000, 0, 0], [0, 0, 0], [1 / 2000, 0, 0]]) ! 1))
           = Fin m0
        \<and> \<bar>m0 - maxstep default_lbfgs * damping default_lbfgs\<bar> < damping default_lbfgs / 10 ^ 7)
   \<and> (\<forall>p0 p1. drop 2 (determine_step default_lbfgs [0, 0, 1, 1, 1]
                (p0 # p1 # map (map Fin) [[1 / 1000, 0, 0], [0, 0, 0], [1 / 2000, 0, 0]]))
          = drop 2 (determine_step default_lbfgs [0, 0, 1, 1, 1]
             (map (map Fin) [[3 / 100, 0, 0], [0, 0, 0], [1 / 1000, 0, 0], [0, 0, 0], [1 / 2000, 0, 0]])))"
proof -
  have h: "0 < maxstep default_lbfgs" "0 < damping default_lbfgs"
    "maxstep default_lbfgs < 3 / 100" "1 / 1000 \<le> maxstep default_lbfgs"
    by (simp_all add: default_lbfgs_def)
  have n: "max (vnorm [3 / 100, 0, 0]) (vnorm [0, 0, 0]) = 3 / 100"
    "max (max (vnorm [1 / 1000, 0, 0]) (vnorm [0, 0, 0])) (vnorm [1 / 2000, 0, 0]) = 1 / 1000"
    by (simp_all add: vnorm_axis)
  from determine_step_clamps_per_system[of default_lbfgs "3 / 100" "[3 / 100, 0, 0]" "[0, 0, 0]"
      "1 / 1000" "[1 / 1000, 0, 0]" "[0, 0, 0]" "[1 / 2000, 0, 0]"
      "determine_step default_lbfgs [0, 0, 1, 1, 1]
             (map (map Fin) [[3 / 100, 0, 0], [0, 0, 0], [1 / 1000, 0, 0], [0, 0, 0], [1 / 2000, 0, 0]])"]
    h n[symmetric]
  show ?thesis using h n by blast
qed

end
